theory Spec2Isabelle
  imports Main "HOL-Library.AList"
begin

section \<open>Data model\<close>

text \<open>
  Values that travel through the adapter are JavaScript primitives: state payloads
  (\<^verbatim>\<open>ioBroker.StateValue\<close>) and the properties of the system-info object.
  Numbers are the integral readings and counters of the controller.
\<close>

datatype js_value = JUndefined | JNull | JBool bool | JNum int | JStr string

text \<open>Truthiness as tested by \<^verbatim>\<open>if (state.val)\<close>.\<close>

fun truthy :: "js_value \<Rightarrow> bool" where
  "truthy JUndefined = False"
| "truthy JNull = False"
| "truthy (JBool b) = b"
| "truthy (JNum n) = (n \<noteq> 0)"
| "truthy (JStr s) = (s \<noteq> [])"

datatype js_error = TypeError string | Error string

text \<open>Decimal rendering of a number inside a template literal.\<close>

definition digits :: string where
  "digits = ''0123456789''"

fun show_nat :: "nat \<Rightarrow> string" where
  "show_nat n =
     (if n < 10 then [digits ! n]
      else show_nat (n div 10) @ [digits ! (n mod 10)])"

declare show_nat.simps [simp del]

definition show_int :: "int \<Rightarrow> string" where
  "show_int i = (if i < 0 then CHR ''-'' # show_nat (nat (- i)) else show_nat (nat i))"

text \<open>
  The values of the system-info properties, as parsed from the controller's answer, and
  their \<^verbatim>\<open>toString()\<close>.
\<close>

datatype sys_value = SysBool bool | SysNum int | SysStr string

fun toString :: "sys_value \<Rightarrow> string" where
  "toString (SysBool b) = (if b then ''true'' else ''false'')"
| "toString (SysNum n) = show_int n"
| "toString (SysStr s) = s"

text \<open>
  \<^verbatim>\<open>GetStateDataObject\<close> of the device library: one observed sensor or relay. The
  category is a string drawn from \<^verbatim>\<open>GetStateCategory\<close>. The adapter compares
  \<^verbatim>\<open>value\<close> and \<^verbatim>\<open>label\<close> with \<^verbatim>\<open>!=\<close>, which on two numbers and on
  two strings is inequality. \<^verbatim>\<open>Object.keys(obj)\<close> lists the properties in the order
  the library assigned them; that order is the library's, so it is carried along here.
\<close>

record data_object =
  obj_keys :: "string list"
  obj_id :: nat
  label :: string
  obj_unit :: string
  obj_value :: int
  displayValue :: string
  category :: string
  categoryId :: nat
  active :: bool

definition TEMPERATURES :: string where "TEMPERATURES = ''temperatures''"
definition RELAYS :: string where "RELAYS = ''relays''"
definition EXTERNAL_RELAYS :: string where "EXTERNAL_RELAYS = ''externalRelays''"

text \<open>
  \<^verbatim>\<open>GetStateDataSysInfo\<close> of the device library, as far as the adapter uses it: the
  properties of the object, read as \<^verbatim>\<open>sysInfo[key]\<close>; the key-value pairs that
  \<^verbatim>\<open>toArrayOfObjects()\<close> returns, in order; and the results of its methods, which
  the library derives from the dosage bitmask and the configuration flags.
\<close>

record sys_info =
  properties :: "(string \<times> sys_value) list"
  arrayOfObjects :: "(string \<times> sys_value) list"
  isPhPlusDosageEnabled :: bool
  isPhMinusDosageEnabled :: bool
  isChlorineDosageEnabled :: bool
  isElectrolysis :: bool
  isExtRelaysEnabled :: bool

definition toArrayOfObjects :: "sys_info \<Rightarrow> (string \<times> sys_value) list" where
  "toArrayOfObjects si = arrayOfObjects si"

text \<open>
  Property access \<^verbatim>\<open>sysInfo[key]\<close>; a missing property reads as undefined, here
  \<open>None\<close>.
\<close>

definition sys_prop :: "sys_info \<Rightarrow> string \<Rightarrow> sys_value option" where
  "sys_prop si k = map_of (properties si) k"

definition dosageControl :: "sys_info \<Rightarrow> sys_value option" where
  "dosageControl si = sys_prop si ''dosageControl''"

text \<open>
  \<^verbatim>\<open>GetStateData\<close>: one snapshot. The three dosage-control ids are what
  \<^verbatim>\<open>getChlorineDosageControlId()\<close>, \<^verbatim>\<open>getPhMinusDosageControlId()\<close> and
  \<^verbatim>\<open>getPhPlusDosageControlId()\<close> return for it.
\<close>

record state_data =
  sysInfo :: sys_info
  objects :: "data_object list"
  chlorineDosageControlId :: nat
  phMinusDosageControlId :: nat
  phPlusDosageControlId :: nat

text \<open>
  Modelled from the spec: \<^verbatim>\<open>GetStateData.getDataObject(id)\<close> belongs to the device
  library. The poll callback tests its result for truthiness ("the object existed in
  previous"), so it is the object of the snapshot with that id, if there is one.
\<close>

definition getDataObject :: "state_data \<Rightarrow> nat \<Rightarrow> data_object option" where
  "getDataObject d i = find (\<lambda>x. obj_id x = i) (objects d)"


text \<open>\<^verbatim>\<open>RelayDataInterpreter\<close> of the device library, used through two methods.\<close>

record relay_interpreter =
  isAuto :: "data_object \<Rightarrow> bool"
  isOn :: "data_object \<Rightarrow> bool"

text \<open>The mutable fields of the \<^verbatim>\<open>ProconIp\<close> adapter instance.\<close>

record adapter =
  adapter_instance :: nat
  forceUpdate :: "nat list"
  stateData :: state_data
  bootstrapped :: bool
  relayDataInterpreter :: relay_interpreter
  getStateService_data :: state_data

definition objectStateFields :: "string list" where
  "objectStateFields = [''value'', ''category'', ''label'', ''unit'', ''displayValue'', ''active'']"

text \<open>\<^verbatim>\<open>${this.name}.${this.instance}\<close>\<close>

definition namespace :: "adapter \<Rightarrow> string" where
  "namespace a = ''procon-ip.'' @ show_nat (adapter_instance a)"

text \<open>\<^verbatim>\<open>${this.name}.${this.instance}.${obj.category}.${obj.categoryId}\<close>\<close>

definition channel_id :: "adapter \<Rightarrow> data_object \<Rightarrow> string" where
  "channel_id a obj = namespace a @ ''.'' @ category obj @ ''.'' @ show_nat (categoryId obj)"

definition field_id :: "adapter \<Rightarrow> data_object \<Rightarrow> string \<Rightarrow> string" where
  "field_id a obj field = channel_id a obj @ ''.'' @ field"

definition info_system_id :: "adapter \<Rightarrow> string \<Rightarrow> string" where
  "info_system_id a k = namespace a @ ''.info.system.'' @ k"

text \<open>\<^verbatim>\<open>obj[field]\<close> for the properties the adapter reads by name.\<close>

definition obj_field :: "data_object \<Rightarrow> string \<Rightarrow> js_value" where
  "obj_field obj field =
     (if field = ''value'' then JNum (obj_value obj)
      else if field = ''category'' then JStr (category obj)
      else if field = ''label'' then JStr (label obj)
      else if field = ''unit'' then JStr (obj_unit obj)
      else if field = ''displayValue'' then JStr (displayValue obj)
      else if field = ''active'' then JBool (active obj)
      else if field = ''id'' then JNum (int (obj_id obj))
      else if field = ''categoryId'' then JNum (int (categoryId obj))
      else JUndefined)"

section \<open>Poll callback: the reconciler\<close>

text \<open>
  What one run of the poll callback does, at the granularity of the calls it makes. Each
  call issues \<^verbatim>\<open>setStateAsync(id, value, true)\<close> requests without awaiting them;
  \<^verbatim>\<open>updateObjectCommonName\<close> works on the object store and is given further down.
\<close>

datatype action =
    SysInfoState string sys_value
  | AdvancedSysInfoStates sys_info
  | UpdateObjectCommonName data_object
  | SetDataState data_object
  | SetConnection bool

datatype state_write = SetState string js_value

text \<open>Lines 107-119: the loop over \<^verbatim>\<open>data.sysInfo.toArrayOfObjects()\<close>.\<close>

fun sysInfoForEach :: "adapter \<Rightarrow> (string \<times> sys_value) list \<Rightarrow> action list" where
  "sysInfoForEach a [] = []"
| "sysInfoForEach a ((k, v) # rest) =
     (if \<not> bootstrapped a \<or> Some v \<noteq> sys_prop (sysInfo (stateData a)) k
      then [SysInfoState k v] else [])
     @ sysInfoForEach a rest"

text \<open>Lines 343-381.\<close>

definition updateAdvancedSysInfoStates :: "adapter \<Rightarrow> sys_info \<Rightarrow> state_write list" where
  "updateAdvancedSysInfoStates a si =
     (if \<not> bootstrapped a \<or> dosageControl si \<noteq> dosageControl (sysInfo (stateData a))
      then [SetState (info_system_id a ''phPlusDosageEnabled'') (JBool (isPhPlusDosageEnabled si)),
            SetState (info_system_id a ''phMinusDosageEnabled'') (JBool (isPhMinusDosageEnabled si)),
            SetState (info_system_id a ''chlorineDosageEnabled'') (JBool (isChlorineDosageEnabled si)),
            SetState (info_system_id a ''electrolysis'') (JBool (isElectrolysis si))]
      else [])"

text \<open>Lines 637-652.\<close>

definition setRelayDataState :: "adapter \<Rightarrow> data_object \<Rightarrow> state_write list" where
  "setRelayDataState a obj =
     [SetState (field_id a obj ''auto'') (JBool (isAuto (relayDataInterpreter a) obj)),
      SetState (field_id a obj ''onOff'') (JBool (isOn (relayDataInterpreter a) obj))]"

text \<open>The test of lines 532-536 and 628-632.\<close>

definition is_relay_class :: "adapter \<Rightarrow> data_object \<Rightarrow> bool" where
  "is_relay_class a obj =
     (category obj = RELAYS \<or>
      (category obj = EXTERNAL_RELAYS \<and> isExtRelaysEnabled (sysInfo (stateData a))))"

text \<open>Lines 617-635.\<close>

definition setDataState :: "adapter \<Rightarrow> data_object \<Rightarrow> state_write list" where
  "setDataState a obj =
     map (\<lambda>field. SetState (field_id a obj field) (obj_field obj field))
       (filter (\<lambda>field. field \<in> set objectStateFields) (obj_keys obj))
     @ (if is_relay_class a obj then setRelayDataState a obj else [])"

text \<open>
  \<^verbatim>\<open>Array.prototype.indexOf\<close> and \<^verbatim>\<open>splice(i, 1)\<close> on the force-update array.
\<close>

fun indexOf :: "nat list \<Rightarrow> nat \<Rightarrow> int" where
  "indexOf [] x = -1"
| "indexOf (y # ys) x =
     (if y = x then 0 else (let r = indexOf ys x in if r < 0 then -1 else r + 1))"

text \<open>
  \<^verbatim>\<open>xs[i]\<close> for an index that \<^verbatim>\<open>indexOf\<close> returned: undefined at \<open>-1\<close>.
\<close>

definition array_at :: "nat list \<Rightarrow> int \<Rightarrow> js_value" where
  "array_at xs i = (if 0 \<le> i \<and> nat i < length xs then JNum (int (xs ! nat i)) else JUndefined)"

text \<open>
  \<^verbatim>\<open>xs.splice(i, 1)\<close>; a negative start counts from the end of the array.
\<close>

definition splice1 :: "nat list \<Rightarrow> int \<Rightarrow> nat list" where
  "splice1 xs i =
     (let n = int (length xs);
          s = (if i < 0 then max (n + i) 0 else min i n)
      in take (nat s) xs @ drop (nat s + 1) xs)"

text \<open>
  Lines 124-158: the body of the loop over \<^verbatim>\<open>data.objects\<close>. The log statement of
  lines 128-132 reads \<^verbatim>\<open>.value\<close> of the baseline object before anything else.
\<close>

definition processObject :: "adapter \<Rightarrow> data_object \<Rightarrow> js_error + (action list \<times> adapter)" where
  "processObject a obj =
     (case getDataObject (stateData a) (obj_id obj) of
        None \<Rightarrow> Inl (TypeError ''Cannot read properties of undefined'')
      | Some prev \<Rightarrow>
          (let forceObjStateUpdate = indexOf (forceUpdate a) (obj_id obj) in
           if \<not> bootstrapped a \<or> forceObjStateUpdate \<ge> 0 \<or> obj_value prev \<noteq> obj_value obj
           then Inr ((if label prev \<noteq> label obj then [UpdateObjectCommonName obj] else [])
                       @ [SetDataState obj],
                     if truthy (array_at (forceUpdate a) forceObjStateUpdate)
                     then a\<lparr>forceUpdate := splice1 (forceUpdate a) forceObjStateUpdate\<rparr>
                     else a)
           else Inr ([], a)))"

fun objectsForEach :: "adapter \<Rightarrow> data_object list \<Rightarrow> action list \<times> js_error option \<times> adapter" where
  "objectsForEach a [] = ([], None, a)"
| "objectsForEach a (obj # rest) =
     (case processObject a obj of
        Inl e \<Rightarrow> ([], Some e, a)
      | Inr (acts, a') \<Rightarrow>
          (case objectsForEach a' rest of (acts', err, a'') \<Rightarrow> (acts @ acts', err, a'')))"

text \<open>
  Lines 102-165: the callback given to \<^verbatim>\<open>GetStateService.start\<close>. An exception
  leaves the callback before the baseline is replaced.
\<close>

definition onData :: "adapter \<Rightarrow> state_data \<Rightarrow> action list \<times> js_error option \<times> adapter" where
  "onData a data =
     (let acts1 = sysInfoForEach a (toArrayOfObjects (sysInfo data)) @ [AdvancedSysInfoStates (sysInfo data)]
      in case objectsForEach a (objects data) of
           (acts2, Some e, a') \<Rightarrow> (acts1 @ acts2, Some e, a')
         | (acts2, None, a') \<Rightarrow>
             (acts1 @ acts2 @ [SetConnection True], None,
              a'\<lparr>stateData := data, bootstrapped := True\<rparr>))"

text \<open>The \<^verbatim>\<open>setStateAsync\<close> requests behind each call, for the adapter as the cycle found it.\<close>

fun writes_of :: "adapter \<Rightarrow> action \<Rightarrow> state_write list" where
  "writes_of a (SysInfoState k v) = [SetState (info_system_id a k) (JStr (toString v))]"
| "writes_of a (AdvancedSysInfoStates si) = updateAdvancedSysInfoStates a si"
| "writes_of a (UpdateObjectCommonName obj) = []"
| "writes_of a (SetDataState obj) = setDataState a obj"
| "writes_of a (SetConnection b) = [SetState (namespace a @ ''.info.connection'') (JBool b)]"

definition cycle_writes :: "adapter \<Rightarrow> state_data \<Rightarrow> state_write list" where
  "cycle_writes a data = concat (map (writes_of a) (fst (onData a data)))"

fun target :: "state_write \<Rightarrow> string" where
  "target (SetState i v) = i"

section \<open>The object and state store of the platform\<close>

text \<open>
  The store is an external collaborator, taken here as a reliable finite table from ids to
  objects and from ids to states. An object carries its \<^verbatim>\<open>common\<close> part and, as
  \<^verbatim>\<open>native\<close>, the data object it was created for (\<^verbatim>\<open>{}\<close> for channels).
\<close>

datatype object_type = Channel | State

datatype smart_name = NoSmartName | EmptySmartName | SmartName string string string

record io_common =
  name :: string
  ctype :: "string option"
  role :: "string option"
  c_read :: "bool option"
  c_write :: "bool option"
  cunit :: "string option"
  smartName :: smart_name

record io_object =
  otype :: object_type
  common :: io_common
  native :: "data_object option"

record io_state =
  val :: js_value
  ack :: bool

record store =
  io_objects :: "(string \<times> io_object) list"
  io_states :: "(string \<times> io_state) list"

definition getObject :: "store \<Rightarrow> string \<Rightarrow> io_object option" where
  "getObject s i = map_of (io_objects s) i"

definition getState :: "store \<Rightarrow> string \<Rightarrow> io_state option" where
  "getState s i = map_of (io_states s) i"

definition setObject :: "store \<Rightarrow> string \<Rightarrow> io_object \<Rightarrow> store" where
  "setObject s i x = s\<lparr>io_objects := AList.update i x (io_objects s)\<rparr>"

definition setObjectNotExists :: "store \<Rightarrow> string \<Rightarrow> io_object \<Rightarrow> store" where
  "setObjectNotExists s i x = (case getObject s i of None \<Rightarrow> setObject s i x | Some _ \<Rightarrow> s)"

definition startsWith :: "string \<Rightarrow> string \<Rightarrow> bool" where
  "startsWith s p = (take (length p) s = p)"

definition endsWith :: "string \<Rightarrow> string \<Rightarrow> bool" where
  "endsWith s suf = (length suf \<le> length s \<and> drop (length s - length suf) s = suf)"

text \<open>\<^verbatim>\<open>getStatesOfAsync(objId)\<close>: the state objects below a channel.\<close>

definition getStatesOf :: "store \<Rightarrow> string \<Rightarrow> (string \<times> io_object) list" where
  "getStatesOf s objId =
     filter (\<lambda>(i, x). otype x = State \<and> startsWith i (objId @ ''.'')) (io_objects s)"

definition rename :: "string \<Rightarrow> io_object \<Rightarrow> io_object" where
  "rename n x = x\<lparr>common := (common x)\<lparr>name := n\<rparr>\<rparr>"

text \<open>Lines 654-668.\<close>

definition updateObjectCommonName :: "adapter \<Rightarrow> data_object \<Rightarrow> store \<Rightarrow> store" where
  "updateObjectCommonName a obj s =
     (let objId = channel_id a obj;
          s1 = (case getObject s objId of
                  Some ioObj \<Rightarrow> setObject s objId (rename (label obj) ioObj)
                | None \<Rightarrow> s);
          objStates = getStatesOf s1 objId
      in fold (\<lambda>(i, st) s'. setObject s' i (rename (label obj) st)) objStates s1)"

section \<open>Object materializer\<close>



text \<open>
  \<^verbatim>\<open>new RegExp('light|bulb|licht|leucht', 'i').test(label)\<close>: one of the four words
  occurs in the label, letters compared without regard to case.
\<close>

definition to_lower :: "char \<Rightarrow> char" where
  "to_lower c =
     (case map_of (zip ''ABCDEFGHIJKLMNOPQRSTUVWXYZ'' ''abcdefghijklmnopqrstuvwxyz'') c of
        Some l \<Rightarrow> l
      | None \<Rightarrow> c)"

fun contains :: "string \<Rightarrow> string \<Rightarrow> bool" where
  "contains [] p = (p = [])"
| "contains (c # cs) p = (startsWith (c # cs) p \<or> contains cs p)"

definition isLight :: "string \<Rightarrow> bool" where
  "isLight l =
     (let s = map to_lower l
      in contains s ''light'' \<or> contains s ''bulb'' \<or> contains s ''licht'' \<or> contains s ''leucht'')"


text \<open>Lines 541-615.\<close>

definition commonAuto :: "data_object \<Rightarrow> io_common" where
  "commonAuto obj =
     \<lparr>name = label obj, ctype = Some ''boolean'', role = Some ''switch.mode.auto'',
      c_read = Some True, c_write = Some True, cunit = None,
      smartName = (if active obj
         then SmartName (label obj @ '' auto'') (label obj @ '' auto'')
                (if isLight (label obj) then ''LIGHT'' else ''SWITCH'')
         else EmptySmartName)\<rparr>"

definition commonOnOff :: "bool \<Rightarrow> data_object \<Rightarrow> io_common" where
  "commonOnOff isDosageRelay obj =
     \<lparr>name = label obj, ctype = Some ''boolean'',
      role = Some (if isLight (label obj) then ''switch.light'' else ''switch''),
      c_read = Some True, c_write = Some (\<not> isDosageRelay), cunit = None,
      smartName = (if active obj \<and> \<not> isDosageRelay
         then SmartName (label obj) (label obj)
                (if isLight (label obj) then ''LIGHT'' else ''SWITCH'')
         else EmptySmartName)\<rparr>"

definition commonTimer :: "data_object \<Rightarrow> io_common" where
  "commonTimer obj =
     \<lparr>name = label obj, ctype = Some ''number'', role = Some ''value.interval'',
      c_read = Some False, c_write = Some True, cunit = None, smartName = NoSmartName\<rparr>"






section \<open>Command dispatcher\<close>

datatype command =
    SetAuto data_object
  | SetOn data_object
  | SetOff data_object
  | SetTimer nat js_value
  | SetChlorineDosage js_value
  | SetPhMinusDosage js_value
  | SetPhPlusDosage js_value

text \<open>
  How a call into the device access layer ends: it throws before it returns a promise, or
  the promise it returns is rejected, or fulfilled with a value. The device decides, so the
  dispatcher takes this as a function of the command.
\<close>

datatype call_result = Throws js_error | Rejects js_error | Resolves js_value

type_synonym transport = "command \<Rightarrow> call_result"

text \<open>How the promise of an \<^verbatim>\<open>async\<close> handler settles.\<close>

datatype promise = Fulfilled js_value | Rejected js_error

datatype event =
    GetStateAsync string
  | GetObjectAsync string
  | Transmit command
  | LogError string

text \<open>
  \<^verbatim>\<open>try { await f() } catch { log }\<close> followed by the end of the function: a throw
  and a rejection both reach the catch block, and the handler's promise is fulfilled with
  undefined either way.
\<close>

definition try_await :: "string \<Rightarrow> call_result \<Rightarrow> promise \<times> event list" where
  "try_await msg r =
     (case r of
        Throws e \<Rightarrow> (Fulfilled JUndefined, [LogError msg])
      | Rejects e \<Rightarrow> (Fulfilled JUndefined, [LogError msg])
      | Resolves v \<Rightarrow> (Fulfilled JUndefined, []))"

text \<open>
  \<^verbatim>\<open>try { return f() } catch { log; return -1 }\<close> in an \<^verbatim>\<open>async\<close> function:
  only a throw of the call itself reaches the catch block. The promise that \<^verbatim>\<open>f\<close>
  returns leaves the \<^verbatim>\<open>try\<close> block as a value, and the handler's promise settles
  the way that promise does.
\<close>

definition try_return :: "string \<Rightarrow> call_result \<Rightarrow> promise \<times> event list" where
  "try_return msg r =
     (case r of
        Throws e \<Rightarrow> (Fulfilled (JNum (- 1)), [LogError msg])
      | Rejects e \<Rightarrow> (Rejected e, [])
      | Resolves v \<Rightarrow> (Fulfilled v, []))"

definition quoted :: "string \<Rightarrow> string" where
  "quoted s = [CHR 0x27] @ s @ [CHR 0x27]"

text \<open>\<^verbatim>\<open>objectId.replace(/\.auto$/, '.onOff')\<close>\<close>

definition replace_auto :: "string \<Rightarrow> string" where
  "replace_auto objectId =
     (if endsWith objectId ''.auto''
      then take (length objectId - 5) objectId @ ''.onOff'' else objectId)"

text \<open>
  \<^verbatim>\<open>this._stateData.getDataObject(Number(obj.native.id))\<close>: without a native id the
  number is NaN, which is no object's id.
\<close>

definition resolve :: "adapter \<Rightarrow> io_object \<Rightarrow> data_object option" where
  "resolve a x =
     (case native x of None \<Rightarrow> None | Some n \<Rightarrow> getDataObject (stateData a) (obj_id n))"

definition push :: "adapter \<Rightarrow> nat \<Rightarrow> adapter" where
  "push a i = a\<lparr>forceUpdate := forceUpdate a @ [i]\<rparr>"

definition no_object :: "string \<Rightarrow> js_error" where
  "no_object objectId =
     Error (''Cannot handle state change for non-existent object '' @ quoted objectId)"

definition no_data_object :: js_error where
  "no_data_object = TypeError ''Cannot read properties of undefined''"

text \<open>Lines 231-264.\<close>

definition relayToggleAuto ::
  "store \<Rightarrow> transport \<Rightarrow> adapter \<Rightarrow> string \<Rightarrow> io_state \<Rightarrow> promise \<times> adapter \<times> event list" where
  "relayToggleAuto s tr a objectId state =
     (let onOffId = replace_auto objectId in
      case getState s onOffId of
        None \<Rightarrow>
          (Rejected (Error (''Cannot get onOff state to toggle '' @ quoted objectId)), a,
           [GetStateAsync onOffId])
      | Some onOffState \<Rightarrow>
          (case getObject s objectId of
             None \<Rightarrow>
               (Rejected (no_object objectId), a, [GetStateAsync onOffId, GetObjectAsync objectId])
           | Some obj \<Rightarrow>
               (case resolve a obj of
                  None \<Rightarrow>
                    (Rejected no_data_object, a,
                     [GetStateAsync onOffId, GetObjectAsync objectId])
                | Some d \<Rightarrow>
                    (let cmd = (if truthy (val state) then SetAuto d
                                else if truthy (val onOffState) then SetOn d
                                else SetOff d);
                         (p, logged) = try_return ''Error on switching operation'' (tr cmd)
                     in (p, push a (obj_id d),
                         [GetStateAsync onOffId, GetObjectAsync objectId, Transmit cmd] @ logged)))))"

text \<open>Lines 266-289.\<close>

definition relayToggleOnOff ::
  "store \<Rightarrow> transport \<Rightarrow> adapter \<Rightarrow> string \<Rightarrow> io_state \<Rightarrow> promise \<times> adapter \<times> event list" where
  "relayToggleOnOff s tr a objectId state =
     (case getObject s objectId of
        None \<Rightarrow> (Rejected (no_object objectId), a, [GetObjectAsync objectId])
      | Some obj \<Rightarrow>
          (case resolve a obj of
             None \<Rightarrow> (Rejected no_data_object, a, [GetObjectAsync objectId])
           | Some d \<Rightarrow>
               (let cmd = (if truthy (val state) then SetOn d else SetOff d);
                    (p, logged) = try_await ''Error on switching operation'' (tr cmd)
                in (p, push a (obj_id d), [GetObjectAsync objectId, Transmit cmd] @ logged))))"

text \<open>Lines 291-318. No command is sent when none of the three ids matches.\<close>

definition setDosageTimer ::
  "store \<Rightarrow> transport \<Rightarrow> adapter \<Rightarrow> string \<Rightarrow> io_state \<Rightarrow> promise \<times> adapter \<times> event list" where
  "setDosageTimer s tr a objectId state =
     (case getObject s objectId of
        None \<Rightarrow> (Rejected (no_object objectId), a, [GetObjectAsync objectId])
      | Some obj \<Rightarrow>
          (case resolve a obj of
             None \<Rightarrow> (Rejected no_data_object, a, [GetObjectAsync objectId])
           | Some d \<Rightarrow>
               (let relayId = categoryId d + (if category d = EXTERNAL_RELAYS then 8 else 0);
                    a' = push a (obj_id d);
                    sent = (\<lambda>cmd. case try_await ''Error setting dosage timer'' (tr cmd) of
                                    (p, logged) \<Rightarrow>
                                      (p, a', [GetObjectAsync objectId, Transmit cmd] @ logged))
                in if relayId = chlorineDosageControlId (stateData a)
                     then sent (SetChlorineDosage (val state))
                   else if relayId = phMinusDosageControlId (stateData a)
                     then sent (SetPhMinusDosage (val state))
                   else if relayId = phPlusDosageControlId (stateData a)
                     then sent (SetPhPlusDosage (val state))
                   else (Fulfilled JUndefined, a', [GetObjectAsync objectId]))))"

text \<open>Lines 320-341.\<close>

definition setRelayTimer ::
  "store \<Rightarrow> transport \<Rightarrow> adapter \<Rightarrow> string \<Rightarrow> io_state \<Rightarrow> promise \<times> adapter \<times> event list" where
  "setRelayTimer s tr a objectId state =
     (case getObject s objectId of
        None \<Rightarrow> (Rejected (no_object objectId), a, [GetObjectAsync objectId])
      | Some obj \<Rightarrow>
          (case resolve a obj of
             None \<Rightarrow> (Rejected no_data_object, a, [GetObjectAsync objectId])
           | Some d \<Rightarrow>
               (let relayId = categoryId d + (if category d = EXTERNAL_RELAYS then 9 else 1);
                    cmd = SetTimer relayId (val state);
                    (p, logged) = try_await ''Error setting relay timer'' (tr cmd)
                in (p, push a (obj_id d), [GetObjectAsync objectId, Transmit cmd] @ logged))))"

text \<open>
  Lines 201-229: the handler's promise gets a \<^verbatim>\<open>catch\<close> that logs; nothing else is
  done with it.
\<close>

definition caught :: "string \<Rightarrow> promise \<times> adapter \<times> event list \<Rightarrow> adapter \<times> event list" where
  "caught msg r =
     (case r of (p, a, evs) \<Rightarrow>
        (a, evs @ (case p of Rejected e \<Rightarrow> [LogError msg] | Fulfilled v \<Rightarrow> [])))"

definition onStateChange ::
  "store \<Rightarrow> transport \<Rightarrow> adapter \<Rightarrow> string \<Rightarrow> io_state option \<Rightarrow> adapter \<times> event list" where
  "onStateChange s tr a i st =
     (case st of
        None \<Rightarrow> (a, [])
      | Some state \<Rightarrow>
          if ack state then (a, [])
          else if endsWith i ''.auto''
            then caught ''Error on relay toggle'' (relayToggleAuto s tr a i state)
          else if endsWith i ''.onOff''
            then caught ''Error on relay toggle'' (relayToggleOnOff s tr a i state)
          else if endsWith i ''.dosageTimer''
            then caught ''Error on manual dosage'' (setDosageTimer s tr a i state)
          else if endsWith i ''.timer''
            then caught ''Error on relay timer'' (setRelayTimer s tr a i state)
          else (a, []))"

text \<open>The device commands among the events of a handler.\<close>

fun transmitted :: "event list \<Rightarrow> command list" where
  "transmitted [] = []"
| "transmitted (Transmit c # evs) = c # transmitted evs"
| "transmitted (e # evs) = transmitted evs"

section \<open>Notions of the specification\<close>

text \<open>
  The specification speaks of a difference in "any tracked field"; this is that test, over
  the six names of \<^verbatim>\<open>_objectStateFields\<close>.
\<close>

definition spec_tracked_field_differs :: "data_object \<Rightarrow> data_object \<Rightarrow> bool" where
  "spec_tracked_field_differs prev obj =
     list_ex (\<lambda>field. obj_field prev field \<noteq> obj_field obj field) objectStateFields"


text \<open>The last segments of the state ids that the poll callback writes for a data object.\<close>

definition dotless_fields :: "string set" where
  "dotless_fields = set objectStateFields \<union> {''auto'', ''onOff''}"

text \<open>
  The physical channel of a dosage relay as the specification words it:
  \<^verbatim>\<open>categoryId + 8\<close> in the external bank, \<^verbatim>\<open>categoryId\<close> otherwise.
\<close>

definition spec_dosage_channel :: "data_object \<Rightarrow> nat" where
  "spec_dosage_channel d =
     (if category d = EXTERNAL_RELAYS then categoryId d + 8 else categoryId d)"

section \<open>A small installation, for concrete runs\<close>

definition ex_sysInfo :: sys_info where
  "ex_sysInfo =
     \<lparr>properties = [(''version'', SysStr ''1.7.3''), (''dosageControl'', SysNum 257)],
      arrayOfObjects = [(''version'', SysStr ''1.7.3''), (''dosageControl'', SysNum 257)],
      isPhPlusDosageEnabled = False, isPhMinusDosageEnabled = True,
      isChlorineDosageEnabled = True, isElectrolysis = False, isExtRelaysEnabled = False\<rparr>"

definition ex_keys :: "string list" where
  "ex_keys = [''id'', ''label'', ''offset'', ''gain'', ''raw'', ''value'', ''displayValue'',
     ''unit'', ''category'', ''categoryId'', ''active'']"

definition ex_pump :: data_object where
  "ex_pump =
     \<lparr>obj_keys = ex_keys, obj_id = 16, label = ''Pump'', obj_unit = ''--'', obj_value = 0, displayValue = ''Auto (off)'',
      category = RELAYS, categoryId = 1, active = True\<rparr>"

definition ex_sensor :: data_object where
  "ex_sensor =
     \<lparr>obj_keys = ex_keys, obj_id = 0, label = ''Pool'', obj_unit = ''C'', obj_value = 24, displayValue = ''24 C'',
      category = TEMPERATURES, categoryId = 1, active = True\<rparr>"

definition ex_data :: state_data where
  "ex_data =
     \<lparr>sysInfo = ex_sysInfo, objects = [ex_sensor, ex_pump],
      chlorineDosageControlId = 2, phMinusDosageControlId = 3, phPlusDosageControlId = 4\<rparr>"

definition ex_interpreter :: relay_interpreter where
  "ex_interpreter = \<lparr>isAuto = (\<lambda>x. obj_value x < 2), isOn = (\<lambda>x. obj_value x mod 2 = 1)\<rparr>"

definition ex_adapter :: adapter where
  "ex_adapter =
     \<lparr>adapter_instance = 0, forceUpdate = [], stateData = ex_data, bootstrapped = True,
      relayDataInterpreter = ex_interpreter, getStateService_data = ex_data\<rparr>"

definition ex_channel :: io_object where
  "ex_channel =
     \<lparr>otype = Channel,
      common = \<lparr>name = ''Pump'', ctype = None, role = None, c_read = None, c_write = None,
                cunit = None, smartName = NoSmartName\<rparr>,
      native = None\<rparr>"

definition ex_store :: store where
  "ex_store =
     \<lparr>io_objects =
        [(''procon-ip.0.relays.1'', ex_channel),
         (''procon-ip.0.relays.1.auto'',
            \<lparr>otype = State, common = commonAuto ex_pump, native = Some ex_pump\<rparr>),
         (''procon-ip.0.relays.1.onOff'',
            \<lparr>otype = State, common = commonOnOff False ex_pump, native = Some ex_pump\<rparr>),
         (''procon-ip.0.relays.1.timer'',
            \<lparr>otype = State, common = commonTimer ex_pump, native = Some ex_pump\<rparr>),
         (''procon-ip.0.relays.10'', ex_channel)],
      io_states =
        [(''procon-ip.0.relays.1.auto'', \<lparr>val = JBool True, ack = True\<rparr>),
         (''procon-ip.0.relays.1.onOff'', \<lparr>val = JBool True, ack = True\<rparr>)]\<rparr>"

definition ex_transport :: transport where
  "ex_transport cmd = Resolves (JNum 1)"

definition ex_failing_transport :: transport where
  "ex_failing_transport cmd = Rejects (Error ''socket hang up'')"

definition ex_snapshot :: "data_object \<Rightarrow> data_object \<Rightarrow> state_data" where
  "ex_snapshot sensor pump = ex_data\<lparr>objects := [sensor, pump]\<rparr>"

definition ex_relabelled :: data_object where
  "ex_relabelled = ex_pump\<lparr>label := ''Filter''\<rparr>"



definition ex_intent :: "js_value \<Rightarrow> io_state" where
  "ex_intent v = \<lparr>val = v, ack = False\<rparr>"

definition ex_dosage_pump :: data_object where
  "ex_dosage_pump = ex_pump\<lparr>obj_id := 17, label := ''Chlorine'', categoryId := 2\<rparr>"

definition ex_dosage_store :: store where
  "ex_dosage_store =
     \<lparr>io_objects =
        [(''procon-ip.0.relays.2.dosageTimer'',
            \<lparr>otype = State, common = commonTimer ex_dosage_pump, native = Some ex_dosage_pump\<rparr>),
         (''procon-ip.0.relays.1.dosageTimer'',
            \<lparr>otype = State, common = commonTimer ex_pump, native = Some ex_pump\<rparr>)],
      io_states = []\<rparr>"

definition ex_dosage_adapter :: adapter where
  "ex_dosage_adapter = ex_adapter\<lparr>stateData := ex_snapshot ex_dosage_pump ex_pump\<rparr>"



lemmas ex_defs = ex_snapshot_def ex_data_def ex_adapter_def ex_pump_def ex_sensor_def
  ex_sysInfo_def ex_interpreter_def RELAYS_def TEMPERATURES_def EXTERNAL_RELAYS_def

lemmas run_defs = onData_def getDataObject_def processObject_def toArrayOfObjects_def
  sys_prop_def Let_def objectStateFields_def obj_field_def array_at_def splice1_def

lemmas id_defs = channel_id_def field_id_def namespace_def info_system_id_def show_nat.simps digits_def

lemmas write_defs = cycle_writes_def setDataState_def setRelayDataState_def is_relay_class_def
  updateAdvancedSysInfoStates_def dosageControl_def ex_keys_def

lemmas store_defs = ex_store_def getObject_def getState_def resolve_def replace_auto_def
  endsWith_def getDataObject_def push_def

section \<open>The force-update array\<close>

lemma indexOf_nonneg_iff: "0 \<le> indexOf xs x \<longleftrightarrow> x \<in> set xs"
  by (induction xs) (auto simp: Let_def)

lemma indexOf_absent: "x \<notin> set xs \<Longrightarrow> indexOf xs x = - 1"
  by (induction xs) (auto simp: Let_def)

lemma indexOf_present:
  "x \<in> set xs \<Longrightarrow> nat (indexOf xs x) < length xs \<and> xs ! nat (indexOf xs x) = x"
proof (induction xs)
  case Nil
  then show ?case by simp
next
  case (Cons y ys)
  show ?case
  proof (cases "y = x")
    case True
    then show ?thesis by simp
  next
    case False
    with Cons.prems have mem: "x \<in> set ys" by simp
    then have nn: "0 \<le> indexOf ys x" by (simp add: indexOf_nonneg_iff)
    from Cons.IH [OF mem] nn False show ?thesis
      by (simp add: Let_def nat_add_distrib)
  qed
qed

lemma splice1_in_range:
  "0 \<le> i \<Longrightarrow> nat i < length xs \<Longrightarrow> splice1 xs i = take (nat i) xs @ drop (Suc (nat i)) xs"
proof -
  assume a: "0 \<le> i" "nat i < length xs"
  then have "i \<le> int (length xs)" by linarith
  with a show ?thesis by (simp add: splice1_def Let_def min_def)
qed

lemma take_drop_indexOf:
  "x \<in> set xs \<Longrightarrow>
     take (nat (indexOf xs x)) xs @ drop (Suc (nat (indexOf xs x))) xs = remove1 x xs"
proof (induction xs)
  case Nil
  then show ?case by simp
next
  case (Cons y ys)
  show ?case
  proof (cases "y = x")
    case True
    then show ?thesis by simp
  next
    case False
    with Cons.prems have mem: "x \<in> set ys" by simp
    then have nn: "0 \<le> indexOf ys x" by (simp add: indexOf_nonneg_iff)
    then have "nat (indexOf ys x + 1) = Suc (nat (indexOf ys x))" by linarith
    with Cons.IH [OF mem] nn False show ?thesis
      by (simp add: Let_def)
  qed
qed

lemma splice1_indexOf: "x \<in> set xs \<Longrightarrow> splice1 xs (indexOf xs x) = remove1 x xs"
  using indexOf_present [of x xs] indexOf_nonneg_iff [of xs x]
  by (simp add: splice1_in_range take_drop_indexOf)

lemma array_at_indexOf:
  "truthy (array_at xs (indexOf xs x)) \<longleftrightarrow> x \<in> set xs \<and> x \<noteq> 0"
proof (cases "x \<in> set xs")
  case True
  with indexOf_present [OF True] show ?thesis
    by (simp add: array_at_def indexOf_nonneg_iff)
next
  case False
  then show ?thesis by (simp add: array_at_def indexOf_absent)
qed

lemma processObject_eq:
  "processObject a obj =
     (case getDataObject (stateData a) (obj_id obj) of
        None \<Rightarrow> Inl (TypeError ''Cannot read properties of undefined'')
      | Some prev \<Rightarrow>
          if \<not> bootstrapped a \<or> obj_id obj \<in> set (forceUpdate a) \<or> obj_value prev \<noteq> obj_value obj
          then Inr ((if label prev \<noteq> label obj then [UpdateObjectCommonName obj] else [])
                      @ [SetDataState obj],
                    if obj_id obj \<in> set (forceUpdate a) \<and> obj_id obj \<noteq> 0
                    then a\<lparr>forceUpdate := remove1 (obj_id obj) (forceUpdate a)\<rparr> else a)
          else Inr ([], a))"
  by (simp add: processObject_def Let_def indexOf_nonneg_iff array_at_indexOf splice1_indexOf
      split: option.split)

section \<open>The loop over the objects of a snapshot\<close>

lemma processObject_frame:
  assumes "processObject a obj = Inr (acts, a')"
  shows "stateData a' = stateData a" "bootstrapped a' = bootstrapped a"
    "adapter_instance a' = adapter_instance a" "relayDataInterpreter a' = relayDataInterpreter a"
    "set (forceUpdate a') \<subseteq> set (forceUpdate a)"
    "i \<noteq> obj_id obj \<Longrightarrow> i \<in> set (forceUpdate a') \<longleftrightarrow> i \<in> set (forceUpdate a)"
  using assms
  by (auto simp: processObject_eq split: option.splits if_splits dest: notin_set_remove1 set_remove1_subset [THEN subsetD])

lemma processObject_acts:
  assumes "processObject a obj = Inr (acts, a')" "x \<in> set acts"
  shows "x = SetDataState obj \<or> x = UpdateObjectCommonName obj"
  using assms by (auto simp: processObject_eq split: option.splits if_splits)

lemma processObject_total:
  "getDataObject (stateData a) (obj_id x) = Some px \<Longrightarrow> \<exists>acts a'. processObject a x = Inr (acts, a')"
  by (simp add: processObject_eq)

lemma objectsForEach_frame:
  "objectsForEach a objs = (acts, err, a') \<Longrightarrow>
     stateData a' = stateData a \<and> bootstrapped a' = bootstrapped a \<and>
     adapter_instance a' = adapter_instance a \<and>
     relayDataInterpreter a' = relayDataInterpreter a \<and>
     set (forceUpdate a') \<subseteq> set (forceUpdate a)"
proof (induction objs arbitrary: a acts err a')
  case Nil
  then show ?case by simp
next
  case (Cons obj rest)
  show ?case
  proof (cases "processObject a obj")
    case (Inl e)
    with Cons.prems show ?thesis by simp
  next
    case (Inr r)
    obtain acts1 a1 where r: "r = (acts1, a1)" by (cases r)
    obtain acts2 err2 a2 where rest: "objectsForEach a1 rest = (acts2, err2, a2)"
      by (cases "objectsForEach a1 rest")
    from Cons.prems Inr r rest have a': "a' = a2" by simp
    from Cons.IH [OF rest] processObject_frame [OF Inr [unfolded r]] a'
    show ?thesis by auto
  qed
qed

lemma objectsForEach_acts:
  "x \<in> set (fst (objectsForEach a objs)) \<Longrightarrow>
     \<exists>obj \<in> set objs. x = SetDataState obj \<or> x = UpdateObjectCommonName obj"
proof (induction objs arbitrary: a)
  case Nil
  then show ?case by simp
next
  case (Cons obj rest)
  show ?case
  proof (cases "processObject a obj")
    case (Inl e)
    with Cons.prems show ?thesis by simp
  next
    case (Inr r)
    obtain acts1 a1 where r: "r = (acts1, a1)" by (cases r)
    from Cons.prems Inr r
    have "x \<in> set acts1 \<or> x \<in> set (fst (objectsForEach a1 rest))"
      by (auto split: prod.splits)
    then show ?thesis
    proof
      assume "x \<in> set acts1"
      with processObject_acts [OF Inr [unfolded r]] show ?thesis by auto
    next
      assume "x \<in> set (fst (objectsForEach a1 rest))"
      from Cons.IH [OF this] show ?thesis by auto
    qed
  qed
qed

text \<open>The decision per object, in a cycle over a snapshot with distinct ids.\<close>

lemma objectsForEach_decides:
  assumes "distinct (map obj_id objs)"
    and "\<forall>x \<in> set objs. getDataObject (stateData a) (obj_id x) \<noteq> None"
    and "obj \<in> set objs"
    and "getDataObject (stateData a) (obj_id obj) = Some prev"
  shows "set (fst (objectsForEach a objs)) \<inter> {SetDataState obj, UpdateObjectCommonName obj} =
     (if \<not> bootstrapped a \<or> obj_id obj \<in> set (forceUpdate a) \<or> obj_value prev \<noteq> obj_value obj
      then {SetDataState obj} \<union> (if label prev \<noteq> label obj then {UpdateObjectCommonName obj} else {})
      else {})"
  using assms
proof (induction objs arbitrary: a)
  case Nil
  then show ?case by simp
next
  case (Cons x rest)
  from Cons.prems(2) obtain px where px: "getDataObject (stateData a) (obj_id x) = Some px"
    by auto
  then obtain acts1 a1 where step: "processObject a x = Inr (acts1, a1)"
    using processObject_total by blast
  note fr = processObject_frame [OF step]
  have split: "fst (objectsForEach a (x # rest)) = acts1 @ fst (objectsForEach a1 rest)"
    using step by (simp split: prod.splits)
  show ?case
  proof (cases "x = obj")
    case True
    from Cons.prems(1) True have "obj \<notin> set rest" by (auto simp: image_iff)
    then have none: "set (fst (objectsForEach a1 rest)) \<inter> {SetDataState obj, UpdateObjectCommonName obj} = {}"
      using objectsForEach_acts [of _ a1 rest] by fastforce
    from step True Cons.prems(4)
    have "set acts1 \<inter> {SetDataState obj, UpdateObjectCommonName obj} =
      (if \<not> bootstrapped a \<or> obj_id obj \<in> set (forceUpdate a) \<or> obj_value prev \<noteq> obj_value obj
       then {SetDataState obj} \<union> (if label prev \<noteq> label obj then {UpdateObjectCommonName obj} else {})
       else {})"
      by (auto simp: processObject_eq split: if_splits)
    with none split show ?thesis by (simp add: Int_Un_distrib2)
  next
    case False
    with Cons.prems(3) have mem: "obj \<in> set rest" by simp
    with Cons.prems(1) have neq: "obj_id obj \<noteq> obj_id x" by (auto simp: image_iff)
    have "set acts1 \<inter> {SetDataState obj, UpdateObjectCommonName obj} = {}"
      using processObject_acts [OF step] False by auto
    moreover have "set (fst (objectsForEach a1 rest)) \<inter> {SetDataState obj, UpdateObjectCommonName obj} =
      (if \<not> bootstrapped a1 \<or> obj_id obj \<in> set (forceUpdate a1) \<or> obj_value prev \<noteq> obj_value obj
       then {SetDataState obj} \<union> (if label prev \<noteq> label obj then {UpdateObjectCommonName obj} else {})
       else {})"
      using Cons.prems fr(1) mem by (intro Cons.IH) auto
    ultimately show ?thesis
      using split fr(2) fr(6) [OF neq] by (simp add: Int_Un_distrib2)
  qed
qed

lemma objectsForEach_no_error:
  "\<forall>x \<in> set objs. getDataObject (stateData a) (obj_id x) \<noteq> None \<Longrightarrow>
     fst (snd (objectsForEach a objs)) = None"
proof (induction objs arbitrary: a)
  case Nil
  then show ?case by simp
next
  case (Cons x rest)
  from Cons.prems obtain px where px: "getDataObject (stateData a) (obj_id x) = Some px"
    by auto
  then obtain acts1 a1 where step: "processObject a x = Inr (acts1, a1)"
    using processObject_total by blast
  from Cons.prems processObject_frame(1) [OF step]
  have "fst (snd (objectsForEach a1 rest)) = None" by (intro Cons.IH) auto
  with step show ?case by (cases "objectsForEach a1 rest") simp
qed

lemma count_list_remove1:
  "count_list (remove1 x xs) i =
     (if i = x \<and> x \<in> set xs then count_list xs i - 1 else count_list xs i)"
  by (induction xs) auto

lemma processObject_count:
  assumes "processObject a x = Inr (acts, a')"
  shows "count_list (forceUpdate a') i =
     (if i = obj_id x \<and> i \<in> set (forceUpdate a) \<and> i \<noteq> 0
      then count_list (forceUpdate a) i - 1 else count_list (forceUpdate a) i)"
  using assms
  by (auto simp: processObject_eq count_list_remove1 split: option.splits if_splits)

text \<open>
  Over a snapshot with distinct ids, one cycle takes one occurrence of an id out of the
  force-update array when the id is not 0 and an object of the snapshot has it, and leaves
  every other entry in place.
\<close>

lemma objectsForEach_count:
  assumes "distinct (map obj_id objs)"
    and "\<forall>x \<in> set objs. getDataObject (stateData a) (obj_id x) \<noteq> None"
  shows "count_list (forceUpdate (snd (snd (objectsForEach a objs)))) i =
     (if i \<in> obj_id ` set objs \<and> i \<in> set (forceUpdate a) \<and> i \<noteq> 0
      then count_list (forceUpdate a) i - 1 else count_list (forceUpdate a) i)"
  using assms
proof (induction objs arbitrary: a)
  case Nil
  then show ?case by simp
next
  case (Cons x rest)
  from Cons.prems(2) obtain px where "getDataObject (stateData a) (obj_id x) = Some px"
    by auto
  then obtain acts1 a1 where step: "processObject a x = Inr (acts1, a1)"
    using processObject_total by blast
  note fr = processObject_frame [OF step]
  have final: "snd (snd (objectsForEach a (x # rest))) = snd (snd (objectsForEach a1 rest))"
    using step by (simp add: split_def)
  from Cons.prems fr(1)
  have ih: "count_list (forceUpdate (snd (snd (objectsForEach a1 rest)))) i =
     (if i \<in> obj_id ` set rest \<and> i \<in> set (forceUpdate a1) \<and> i \<noteq> 0
      then count_list (forceUpdate a1) i - 1 else count_list (forceUpdate a1) i)"
    by (intro Cons.IH) auto
  show ?case
  proof (cases "i = obj_id x")
    case True
    with Cons.prems(1) have "i \<notin> obj_id ` set rest" by auto
    with ih True processObject_count [OF step, of i] show ?thesis
      unfolding final by simp
  next
    case False
    with ih processObject_count [OF step, of i] fr(6) [of i] show ?thesis
      unfolding final by simp
  qed
qed

lemma forced_nonzero_id_consumed:
  assumes "distinct (map obj_id objs)"
    and "\<forall>x \<in> set objs. getDataObject (stateData a) (obj_id x) \<noteq> None"
    and "obj \<in> set objs"
    and "obj_id obj \<in> set (forceUpdate a)"
    and "obj_id obj \<noteq> 0"
  shows "SetDataState obj \<in> set (fst (objectsForEach a objs))"
    and "count_list (forceUpdate (snd (snd (objectsForEach a objs)))) (obj_id obj) =
           count_list (forceUpdate a) (obj_id obj) - 1"
proof -
  from assms(2,3) obtain prev where prev: "getDataObject (stateData a) (obj_id obj) = Some prev"
    by auto
  have "SetDataState obj \<in>
      set (fst (objectsForEach a objs)) \<inter> {SetDataState obj, UpdateObjectCommonName obj}"
    unfolding objectsForEach_decides [OF assms(1-3) prev] using assms(4) by simp
  then show "SetDataState obj \<in> set (fst (objectsForEach a objs))" by simp
  from assms(3-5) show "count_list (forceUpdate (snd (snd (objectsForEach a objs)))) (obj_id obj) =
           count_list (forceUpdate a) (obj_id obj) - 1"
    by (simp add: objectsForEach_count [OF assms(1,2)])
qed

lemma sysInfoForEach_acts:
  "x \<in> set (sysInfoForEach a ps) \<Longrightarrow> \<exists>k v. x = SysInfoState k v"
  by (induction a ps rule: sysInfoForEach.induct) (auto split: if_splits)

lemma onData_acts:
  "fst (onData a data) =
     sysInfoForEach a (toArrayOfObjects (sysInfo data)) @ [AdvancedSysInfoStates (sysInfo data)]
     @ fst (objectsForEach a (objects data))
     @ (if fst (snd (objectsForEach a (objects data))) = None then [SetConnection True] else [])"
  by (cases "objectsForEach a (objects data)")
    (auto simp: onData_def Let_def split: option.splits)

lemma onData_SetDataState:
  "SetDataState obj \<in> set (fst (onData a data)) \<longleftrightarrow>
     SetDataState obj \<in> set (fst (objectsForEach a (objects data)))"
  using sysInfoForEach_acts [of "SetDataState obj" a "toArrayOfObjects (sysInfo data)"]
  by (auto simp: onData_acts)

lemma onData_UpdateObjectCommonName:
  "UpdateObjectCommonName obj \<in> set (fst (onData a data)) \<longleftrightarrow>
     UpdateObjectCommonName obj \<in> set (fst (objectsForEach a (objects data)))"
  using sysInfoForEach_acts [of "UpdateObjectCommonName obj" a "toArrayOfObjects (sysInfo data)"]
  by (auto simp: onData_acts)

text \<open>
  The system-info part of a cycle: one write per listed pair that is not strictly equal to
  the baseline's property (every pair before bootstrap), then the one call for the derived
  booleans, which writes all four or none.
\<close>

lemma onData_sysinfo_actions:
  "\<exists>rest.
     fst (onData a data) =
       map (\<lambda>(k, v). SysInfoState k v)
         (filter (\<lambda>(k, v). \<not> bootstrapped a \<or> Some v \<noteq> sys_prop (sysInfo (stateData a)) k)
            (toArrayOfObjects (sysInfo data)))
       @ AdvancedSysInfoStates (sysInfo data) # rest \<and>
     (\<forall>x \<in> set rest. (\<forall>k v. x \<noteq> SysInfoState k v) \<and> (\<forall>si. x \<noteq> AdvancedSysInfoStates si)) \<and>
     (\<forall>k v. writes_of a (SysInfoState k v) = [SetState (info_system_id a k) (JStr (toString v))]) \<and>
     writes_of a (AdvancedSysInfoStates (sysInfo data)) =
       (if \<not> bootstrapped a \<or> dosageControl (sysInfo data) \<noteq> dosageControl (sysInfo (stateData a))
        then [SetState (info_system_id a ''phPlusDosageEnabled'') (JBool (isPhPlusDosageEnabled (sysInfo data))),
              SetState (info_system_id a ''phMinusDosageEnabled'') (JBool (isPhMinusDosageEnabled (sysInfo data))),
              SetState (info_system_id a ''chlorineDosageEnabled'') (JBool (isChlorineDosageEnabled (sysInfo data))),
              SetState (info_system_id a ''electrolysis'') (JBool (isElectrolysis (sysInfo data)))]
        else [])"
proof -
  have loop: "sysInfoForEach a ps =
      map (\<lambda>(k, v). SysInfoState k v)
        (filter (\<lambda>(k, v). \<not> bootstrapped a \<or> Some v \<noteq> sys_prop (sysInfo (stateData a)) k) ps)" for ps
    by (induction a ps rule: sysInfoForEach.induct) simp_all
  define rest where "rest = fst (objectsForEach a (objects data))
     @ (if fst (snd (objectsForEach a (objects data))) = None then [SetConnection True] else [])"
  have "\<forall>x \<in> set rest. (\<forall>k v. x \<noteq> SysInfoState k v) \<and> (\<forall>si. x \<noteq> AdvancedSysInfoStates si)"
    using objectsForEach_acts [of _ a "objects data"]
    by (auto simp: rest_def split: if_splits)
  moreover have "fst (onData a data) =
       map (\<lambda>(k, v). SysInfoState k v)
         (filter (\<lambda>(k, v). \<not> bootstrapped a \<or> Some v \<noteq> sys_prop (sysInfo (stateData a)) k)
            (toArrayOfObjects (sysInfo data)))
       @ AdvancedSysInfoStates (sysInfo data) # rest"
    by (simp add: onData_acts loop rest_def)
  ultimately show ?thesis
    by (intro exI [of _ rest]) (simp add: updateAdvancedSysInfoStates_def)
qed

section \<open>Renaming in the object store\<close>

lemma getObject_setObject:
  "getObject (setObject s i x) j = (if j = i then Some x else getObject s j)"
  by (simp add: getObject_def setObject_def update_conv')

lemma keys_setObject:
  "i \<in> fst ` set (io_objects s) \<Longrightarrow>
     map fst (io_objects (setObject s i x)) = map fst (io_objects s)"
  by (simp add: setObject_def update_keys)

lemma io_states_setObject: "io_states (setObject s i x) = io_states s"
  by (simp add: setObject_def)

lemma fold_setObject:
  assumes "distinct (map fst kvs)" and "fst ` set kvs \<subseteq> fst ` set (io_objects s)"
  shows "getObject (fold (\<lambda>(i, x) s'. setObject s' i (f x)) kvs s) j =
           (case map_of kvs j of Some x \<Rightarrow> Some (f x) | None \<Rightarrow> getObject s j)
         \<and> map fst (io_objects (fold (\<lambda>(i, x) s'. setObject s' i (f x)) kvs s)) = map fst (io_objects s)
         \<and> io_states (fold (\<lambda>(i, x) s'. setObject s' i (f x)) kvs s) = io_states s"
  using assms
proof (induction kvs arbitrary: s)
  case Nil
  then show ?case by simp
next
  case (Cons kv rest)
  obtain i x where kv: "kv = (i, x)" by (cases kv)
  let ?s1 = "setObject s i (f x)"
  from Cons.prems kv have mem: "i \<in> fst ` set (io_objects s)" by auto
  have keys1: "map fst (io_objects ?s1) = map fst (io_objects s)"
    using mem by (rule keys_setObject)
  then have "set (map fst (io_objects ?s1)) = set (map fst (io_objects s))" by simp
  then have same: "fst ` set (io_objects ?s1) = fst ` set (io_objects s)" by simp
  from Cons.prems kv have d: "distinct (map fst rest)" and sub: "fst ` set rest \<subseteq> fst ` set (io_objects ?s1)"
    by (auto simp: same)
  from Cons.prems kv have fresh: "map_of rest i = None"
    by (auto simp: map_of_eq_None_iff)
  from Cons.IH [OF d sub] keys1 kv fresh show ?case
    by (auto simp: getObject_setObject io_states_setObject split: option.splits)
qed

lemma map_of_filter_distinct:
  "distinct (map fst kvs) \<Longrightarrow>
     map_of (filter P kvs) j =
       (case map_of kvs j of Some x \<Rightarrow> if P (j, x) then Some x else None | None \<Rightarrow> None)"
proof (induction kvs)
  case Nil
  then show ?case by simp
next
  case (Cons kv rest)
  obtain k v where kv: "kv = (k, v)" by (cases kv)
  from Cons.prems kv have "k \<notin> fst ` set (filter P rest)" by auto
  then have none: "map_of (filter P rest) k = None" by (simp add: map_of_eq_None_iff)
  from Cons kv none show ?case by (auto split: option.splits)
qed

lemma getStatesOf_facts:
  assumes "distinct (map fst (io_objects s))"
  shows "distinct (map fst (getStatesOf s objId))"
    and "fst ` set (getStatesOf s objId) \<subseteq> fst ` set (io_objects s)"
    and "map_of (getStatesOf s objId) j =
           (case getObject s j of
              Some x \<Rightarrow> if otype x = State \<and> startsWith j (objId @ ''.'') then Some x else None
            | None \<Rightarrow> None)"
proof -
  show "distinct (map fst (getStatesOf s objId))"
    using assms by (simp add: getStatesOf_def distinct_map_filter)
  show "fst ` set (getStatesOf s objId) \<subseteq> fst ` set (io_objects s)"
    by (auto simp: getStatesOf_def)
  show "map_of (getStatesOf s objId) j =
           (case getObject s j of
              Some x \<Rightarrow> if otype x = State \<and> startsWith j (objId @ ''.'') then Some x else None
            | None \<Rightarrow> None)"
    unfolding getStatesOf_def getObject_def
    by (simp add: map_of_filter_distinct [OF assms] split: option.split)
qed

lemma startsWith_self_dot: "\<not> startsWith i (i @ ''.'')"
proof
  assume "startsWith i (i @ ''.'')"
  then have "length (take (length (i @ ''.'')) i) = length (i @ ''.'')"
    unfolding startsWith_def by (rule arg_cong)
  then show False by simp
qed

lemma updateObjectCommonName_store:
  assumes "distinct (map fst (io_objects s))"
  shows "map fst (io_objects (updateObjectCommonName a obj s)) = map fst (io_objects s)"
    and "io_states (updateObjectCommonName a obj s) = io_states s"
    and "getObject (updateObjectCommonName a obj s) i =
           (case getObject s i of
              None \<Rightarrow> None
            | Some x \<Rightarrow>
                Some (if i = channel_id a obj \<or>
                         (otype x = State \<and> startsWith i (channel_id a obj @ ''.''))
                      then rename (label obj) x else x))"
proof -
  define objId where "objId = channel_id a obj"
  define s1 where "s1 = (case getObject s objId of
               Some ioObj \<Rightarrow> setObject s objId (rename (label obj) ioObj) | None \<Rightarrow> s)"
  have keys1: "map fst (io_objects s1) = map fst (io_objects s)"
  proof (cases "getObject s objId")
    case None
    then show ?thesis by (simp add: s1_def)
  next
    case (Some x)
    then have "objId \<in> fst ` set (io_objects s)"
      unfolding getObject_def by (metis domI dom_map_of_conv_image_fst)
    with Some show ?thesis by (simp add: s1_def keys_setObject)
  qed
  have states1: "io_states s1 = io_states s"
    by (simp add: s1_def io_states_setObject split: option.splits)
  have get1: "getObject s1 j =
      (case getObject s j of None \<Rightarrow> None
       | Some x \<Rightarrow> Some (if j = objId then rename (label obj) x else x))" for j
    by (auto simp: s1_def getObject_setObject split: option.splits)
  have d1: "distinct (map fst (io_objects s1))"
    using assms keys1 by simp
  note st = getStatesOf_facts [OF d1, of objId]
  note fo = fold_setObject [OF st(1) st(2), of "rename (label obj)"]
  have unf: "updateObjectCommonName a obj s =
      fold (\<lambda>(i, st) s'. setObject s' i (rename (label obj) st)) (getStatesOf s1 objId) s1"
    unfolding updateObjectCommonName_def Let_def s1_def objId_def by (rule refl)
  show "map fst (io_objects (updateObjectCommonName a obj s)) = map fst (io_objects s)"
    unfolding unf using fo keys1 by simp
  show "io_states (updateObjectCommonName a obj s) = io_states s"
    unfolding unf using fo states1 by simp
  have ot: "otype (rename n x) = otype x" for n x
    by (simp add: rename_def)
  have rr: "rename n (rename n x) = rename n x" for n x
    by (simp add: rename_def)
  have "getObject (updateObjectCommonName a obj s) i =
      (case map_of (getStatesOf s1 objId) i of
         Some x \<Rightarrow> Some (rename (label obj) x) | None \<Rightarrow> getObject s1 i)"
    unfolding unf using fo by simp
  also have "\<dots> =
      (case getObject s i of
         None \<Rightarrow> None
       | Some x \<Rightarrow>
           Some (if i = objId \<or> (otype x = State \<and> startsWith i (objId @ ''.''))
                 then rename (label obj) x else x))"
    by (simp add: st(3) get1 ot rr startsWith_self_dot split: option.splits)
  finally show "getObject (updateObjectCommonName a obj s) i =
           (case getObject s i of
              None \<Rightarrow> None
            | Some x \<Rightarrow>
                Some (if i = channel_id a obj \<or>
                         (otype x = State \<and> startsWith i (channel_id a obj @ ''.''))
                      then rename (label obj) x else x))"
    unfolding objId_def .
qed

text \<open>
  What the call does to the store, with the new \<^verbatim>\<open>common.name\<close> spelt out.
\<close>

lemma updateObjectCommonName_names:
  assumes "distinct (map fst (io_objects s))" and "getObject s i = Some x"
  shows "getObject (updateObjectCommonName a obj s) i =
     Some (if i = channel_id a obj \<or> (otype x = State \<and> startsWith i (channel_id a obj @ ''.''))
           then x\<lparr>common := (common x)\<lparr>name := label obj\<rparr>\<rparr> else x)"
  using updateObjectCommonName_store(3) [OF assms(1), of a obj i] assms(2)
  by (simp add: rename_def)

text \<open>When the poll callback makes the call.\<close>

lemma rename_call_iff:
  assumes "distinct (map obj_id (objects data))"
    and "\<forall>x \<in> set (objects data). getDataObject (stateData a) (obj_id x) \<noteq> None"
    and "obj \<in> set (objects data)"
    and "getDataObject (stateData a) (obj_id obj) = Some prev"
  shows "UpdateObjectCommonName obj \<in> set (fst (onData a data)) \<longleftrightarrow>
     (\<not> bootstrapped a \<or> obj_id obj \<in> set (forceUpdate a) \<or> obj_value prev \<noteq> obj_value obj) \<and>
     label prev \<noteq> label obj"
proof -
  have "UpdateObjectCommonName obj \<in> set (fst (objectsForEach a (objects data))) \<longleftrightarrow>
      UpdateObjectCommonName obj \<in>
        set (fst (objectsForEach a (objects data))) \<inter> {SetDataState obj, UpdateObjectCommonName obj}"
    by simp
  also have "\<dots> \<longleftrightarrow>
      (\<not> bootstrapped a \<or> obj_id obj \<in> set (forceUpdate a) \<or> obj_value prev \<noteq> obj_value obj) \<and>
      label prev \<noteq> label obj"
    unfolding objectsForEach_decides [OF assms] by simp
  finally show ?thesis
    by (simp add: onData_UpdateObjectCommonName)
qed

section \<open>Ids of the states written\<close>

lemma first_dot_split:
  "CHR ''.'' \<notin> set u \<Longrightarrow> CHR ''.'' \<notin> set v \<Longrightarrow> u @ CHR ''.'' # r = v @ CHR ''.'' # r' \<Longrightarrow> u = v"
proof (induction u arbitrary: v)
  case Nil
  then show ?case by (cases v) auto
next
  case (Cons c u)
  then show ?case by (cases v) auto
qed

lemma last_dot_split:
  assumes "CHR ''.'' \<notin> set f" "CHR ''.'' \<notin> set g" "u @ CHR ''.'' # f = v @ CHR ''.'' # g"
  shows "u = v"
proof -
  from assms(3) have "rev (u @ CHR ''.'' # f) = rev (v @ CHR ''.'' # g)" by simp
  then have eq: "rev f @ CHR ''.'' # rev u = rev g @ CHR ''.'' # rev v" by simp
  from assms(1,2) have "CHR ''.'' \<notin> set (rev f)" "CHR ''.'' \<notin> set (rev g)" by simp_all
  from first_dot_split [OF this eq] have "f = g" by simp
  with assms(3) show ?thesis by simp
qed

lemma objectsForEach_SetDataState:
  "SetDataState x \<in> set (fst (objectsForEach a objs)) \<Longrightarrow>
     x \<in> set objs \<and>
     (\<not> bootstrapped a \<or> obj_id x \<in> set (forceUpdate a) \<or>
      (\<exists>p. getDataObject (stateData a) (obj_id x) = Some p \<and> obj_value p \<noteq> obj_value x))"
proof (induction objs arbitrary: a)
  case Nil
  then show ?case by simp
next
  case (Cons y rest)
  show ?case
  proof (cases "processObject a y")
    case (Inl e)
    with Cons.prems show ?thesis by simp
  next
    case (Inr r)
    obtain acts1 a1 where r: "r = (acts1, a1)" by (cases r)
    note step = Inr [unfolded r]
    note fr = processObject_frame [OF step]
    from Cons.prems step
    have "SetDataState x \<in> set acts1 \<or> SetDataState x \<in> set (fst (objectsForEach a1 rest))"
      by (auto split: prod.splits)
    then show ?thesis
    proof
      assume "SetDataState x \<in> set acts1"
      with step show ?thesis
        by (auto simp: processObject_eq split: option.splits if_splits)
    next
      assume "SetDataState x \<in> set (fst (objectsForEach a1 rest))"
      from Cons.IH [OF this] fr(1,2,5) show ?thesis by auto
    qed
  qed
qed

lemma dotless_fields_no_dot: "f \<in> dotless_fields \<Longrightarrow> CHR ''.'' \<notin> set f"
  by (auto simp: dotless_fields_def objectStateFields_def)

lemma setDataState_targets:
  "w \<in> set (setDataState a x) \<Longrightarrow> \<exists>f \<in> dotless_fields. target w = channel_id a x @ CHR ''.'' # f"
  by (auto simp: setDataState_def setRelayDataState_def field_id_def dotless_fields_def
      split: if_splits)

lemma info_targets:
  assumes "CHR ''.'' \<notin> set (category obj)" "category obj \<noteq> ''info''"
  shows "namespace a @ ''.info.'' @ r \<noteq> field_id a obj f"
proof
  assume "namespace a @ ''.info.'' @ r = field_id a obj f"
  then have "''info'' @ CHR ''.'' # r = category obj @ CHR ''.'' # (show_nat (categoryId obj) @ ''.'' @ f)"
    by (simp add: field_id_def channel_id_def)
  from first_dot_split [OF _ assms(1) this] assms(2) show False by simp
qed

lemma objectsForEach_value_changed:
  assumes "\<forall>x \<in> set objs. getDataObject (stateData a) (obj_id x) \<noteq> None"
    and "obj \<in> set objs"
    and "getDataObject (stateData a) (obj_id obj) = Some prev"
    and "obj_value prev \<noteq> obj_value obj"
  shows "SetDataState obj \<in> set (fst (objectsForEach a objs))"
  using assms
proof (induction objs arbitrary: a)
  case Nil
  then show ?case by simp
next
  case (Cons x rest)
  from Cons.prems(1) obtain px where "getDataObject (stateData a) (obj_id x) = Some px"
    by auto
  then obtain acts1 a1 where step: "processObject a x = Inr (acts1, a1)"
    using processObject_total by blast
  note fr = processObject_frame [OF step]
  have split: "fst (objectsForEach a (x # rest)) = acts1 @ fst (objectsForEach a1 rest)"
    using step by (simp add: split_def)
  show ?case
  proof (cases "x = obj")
    case True
    with step Cons.prems(3,4) have "SetDataState obj \<in> set acts1"
      by (auto simp: processObject_eq split: if_splits)
    with split show ?thesis by simp
  next
    case False
    with Cons.prems(2) have "obj \<in> set rest" by simp
    with Cons.prems fr(1) have "SetDataState obj \<in> set (fst (objectsForEach a1 rest))"
      by (intro Cons.IH) auto
    with split show ?thesis by simp
  qed
qed

lemma writes_of_member:
  "act \<in> set acts \<Longrightarrow> w \<in> set (writes_of a act) \<Longrightarrow> w \<in> set (concat (map (writes_of a) acts))"
  by auto

lemma setDataState_field:
  "field \<in> set objectStateFields \<Longrightarrow> field \<in> set (obj_keys obj) \<Longrightarrow>
     SetState (field_id a obj field) (obj_field obj field) \<in> set (setDataState a obj)"
  by (simp add: setDataState_def)

text \<open>Which writes the value of an object decides, for one tracked field.\<close>

lemma value_decides_field_writes_aux:
  assumes "bootstrapped a"
    and "getDataObject (stateData a) (obj_id obj) = Some prev"
    and "obj_id obj \<notin> set (forceUpdate a)"
    and "\<forall>x \<in> set (objects data). x \<noteq> obj \<longrightarrow> channel_id a x \<noteq> channel_id a obj"
    and "CHR ''.'' \<notin> set (category obj)" and "category obj \<noteq> ''info''"
    and "field \<in> set objectStateFields"
  shows "(obj_value prev = obj_value obj \<longrightarrow>
            (\<forall>w \<in> set (cycle_writes a data). target w \<noteq> field_id a obj field)) \<and>
         (obj_value prev \<noteq> obj_value obj \<and> obj \<in> set (objects data) \<and>
          (\<forall>x \<in> set (objects data). getDataObject (stateData a) (obj_id x) \<noteq> None) \<and>
          field \<in> set (obj_keys obj) \<longrightarrow>
            SetState (field_id a obj field) (obj_field obj field) \<in> set (cycle_writes a data))"
proof (intro conjI impI)
  assume same: "obj_value prev = obj_value obj"
  show "\<forall>w \<in> set (cycle_writes a data). target w \<noteq> field_id a obj field"
  proof
    fix w
    assume "w \<in> set (cycle_writes a data)"
    then obtain act where act: "act \<in> set (fst (onData a data))" and w: "w \<in> set (writes_of a act)"
      by (auto simp: cycle_writes_def)
    have fld: "field \<in> dotless_fields"
      using assms(7) by (simp add: dotless_fields_def)
    note info = info_targets [OF assms(5,6), of a _ field]
    show "target w \<noteq> field_id a obj field"
    proof (cases act)
      case (SysInfoState k v)
      with w info [of "''system.'' @ k"] show ?thesis
        by (simp add: info_system_id_def)
    next
      case (AdvancedSysInfoStates si)
      with w info [of "''system.phPlusDosageEnabled''"] info [of "''system.phMinusDosageEnabled''"]
        info [of "''system.chlorineDosageEnabled''"] info [of "''system.electrolysis''"]
      show ?thesis
        by (auto simp: updateAdvancedSysInfoStates_def info_system_id_def split: if_splits)
    next
      case (UpdateObjectCommonName x)
      with w show ?thesis by simp
    next
      case (SetConnection b)
      with w info [of "''connection''"] show ?thesis by simp
    next
      case (SetDataState x)
      with act have "SetDataState x \<in> set (fst (objectsForEach a (objects data)))"
        by (simp add: onData_SetDataState)
      from objectsForEach_SetDataState [OF this] assms(1-3) same
      have mem: "x \<in> set (objects data)" and neq: "x \<noteq> obj" by auto
      with assms(4) have chan: "channel_id a x \<noteq> channel_id a obj" by simp
      from w SetDataState obtain f where f: "f \<in> dotless_fields"
        and t: "target w = channel_id a x @ CHR ''.'' # f"
        using setDataState_targets by fastforce
      show ?thesis
      proof
        assume "target w = field_id a obj field"
        with t have "channel_id a x @ CHR ''.'' # f = channel_id a obj @ CHR ''.'' # field"
          by (simp add: field_id_def)
        from last_dot_split [OF dotless_fields_no_dot [OF f] dotless_fields_no_dot [OF fld] this] chan
        show False by simp
      qed
    qed
  qed
next
  assume h: "obj_value prev \<noteq> obj_value obj \<and> obj \<in> set (objects data) \<and>
          (\<forall>x \<in> set (objects data). getDataObject (stateData a) (obj_id x) \<noteq> None) \<and>
          field \<in> set (obj_keys obj)"
  then have "SetDataState obj \<in> set (fst (objectsForEach a (objects data)))"
    using objectsForEach_value_changed [OF _ _ assms(2)] by blast
  then have act: "SetDataState obj \<in> set (fst (onData a data))"
    by (simp add: onData_SetDataState)
  from h assms(7)
  have "SetState (field_id a obj field) (obj_field obj field) \<in> set (writes_of a (SetDataState obj))"
    by (simp add: setDataState_field)
  with act show "SetState (field_id a obj field) (obj_field obj field) \<in> set (cycle_writes a data)"
    unfolding cycle_writes_def by (rule writes_of_member)
qed

section \<open>Handlers of the command dispatcher\<close>

lemma try_await_fulfilled: "fst (try_await msg r) = Fulfilled JUndefined"
  by (cases r) (simp_all add: try_await_def)

lemma transmitted_append: "transmitted (xs @ ys) = transmitted xs @ transmitted ys"
  by (induction xs rule: transmitted.induct) simp_all

lemma transmitted_try_await: "transmitted (snd (try_await msg r)) = []"
  by (cases r) (simp_all add: try_await_def)

lemma transmitted_try_return: "transmitted (snd (try_return msg r)) = []"
  by (cases r) (simp_all add: try_return_def)

text \<open>The ledger entry is made by all four handlers, whatever the transport does.\<close>

lemma handlers_push:
  assumes "getObject s objectId = Some obj" and "resolve a obj = Some d"
  shows "getState s (replace_auto objectId) \<noteq> None \<Longrightarrow>
           fst (snd (relayToggleAuto s tr a objectId state)) = push a (obj_id d)"
    and "fst (snd (relayToggleOnOff s tr a objectId state)) = push a (obj_id d)"
    and "fst (snd (setDosageTimer s tr a objectId state)) = push a (obj_id d)"
    and "fst (snd (setRelayTimer s tr a objectId state)) = push a (obj_id d)"
  using assms
  by (auto simp: relayToggleAuto_def relayToggleOnOff_def setDosageTimer_def setRelayTimer_def
      Let_def split_def)

text \<open>The three handlers that await the transport never reject once the identity resolves.\<close>

lemma awaiting_handlers_fulfilled:
  assumes "getObject s objectId = Some obj" and "resolve a obj = Some d"
  shows "fst (relayToggleOnOff s tr a objectId state) = Fulfilled JUndefined"
    and "fst (setDosageTimer s tr a objectId state) = Fulfilled JUndefined"
    and "fst (setRelayTimer s tr a objectId state) = Fulfilled JUndefined"
  using assms
  by (simp_all add: relayToggleOnOff_def setDosageTimer_def setRelayTimer_def Let_def
      split_def try_await_fulfilled)

lemma replace_auto_suffix: "replace_auto (base @ ''.auto'') = base @ ''.onOff''"
  by (simp add: replace_auto_def endsWith_def)

section \<open>Creation requests of the materializer\<close>















section \<open>The claims about the poll callback\<close>

text \<open>
  C1 (as amended). In a cycle over a snapshot with distinct ids whose objects all exist in
  the baseline, the callback calls \<^verbatim>\<open>setDataState\<close> for an object exactly when
  the bootstrap flag is false, or the force-update array contains its id, or its
  \<^verbatim>\<open>value\<close> differs from the baseline's. The other tracked fields play no part.
\<close>

theorem entry_iff_bootstrap_force_or_value:
  assumes "distinct (map obj_id (objects data))"
    and "\<forall>x \<in> set (objects data). getDataObject (stateData a) (obj_id x) \<noteq> None"
    and "obj \<in> set (objects data)"
  shows "SetDataState obj \<in> set (fst (onData a data)) \<longleftrightarrow>
     (\<not> bootstrapped a \<or> obj_id obj \<in> set (forceUpdate a) \<or>
      (\<exists>prev. getDataObject (stateData a) (obj_id obj) = Some prev \<and>
         obj_value prev \<noteq> obj_value obj))"
proof -
  from assms(2,3) obtain prev where prev: "getDataObject (stateData a) (obj_id obj) = Some prev"
    by auto
  have "SetDataState obj \<in> set (fst (objectsForEach a (objects data))) \<longleftrightarrow>
      SetDataState obj \<in>
        set (fst (objectsForEach a (objects data))) \<inter> {SetDataState obj, UpdateObjectCommonName obj}"
    by simp
  also have "\<dots> \<longleftrightarrow>
      (\<not> bootstrapped a \<or> obj_id obj \<in> set (forceUpdate a) \<or> obj_value prev \<noteq> obj_value obj)"
    unfolding objectsForEach_decides [OF assms prev] by simp
  finally show ?thesis
    using prev by (simp add: onData_SetDataState)
qed

text \<open>A run where the pump's value changed and the sensor's did not.\<close>

theorem entry_iff_bootstrap_force_or_value_witness:
  "distinct (map obj_id (objects (ex_snapshot ex_sensor (ex_pump\<lparr>obj_value := 1\<rparr>)))) \<and>
   list_all (\<lambda>x. getDataObject (stateData ex_adapter) (obj_id x) \<noteq> None)
     (objects (ex_snapshot ex_sensor (ex_pump\<lparr>obj_value := 1\<rparr>))) \<and>
   SetDataState (ex_pump\<lparr>obj_value := 1\<rparr>)
     \<in> set (fst (onData ex_adapter (ex_snapshot ex_sensor (ex_pump\<lparr>obj_value := 1\<rparr>)))) \<and>
   SetDataState ex_sensor
     \<notin> set (fst (onData ex_adapter (ex_snapshot ex_sensor (ex_pump\<lparr>obj_value := 1\<rparr>))))"
proof -
  let ?d = "ex_snapshot ex_sensor (ex_pump\<lparr>obj_value := 1\<rparr>)"
  have d: "distinct (map obj_id (objects ?d))"
    by (simp add: ex_defs)
  have r: "\<forall>x \<in> set (objects ?d). getDataObject (stateData ex_adapter) (obj_id x) \<noteq> None"
    by (simp add: ex_defs getDataObject_def)
  have m1: "ex_pump\<lparr>obj_value := 1\<rparr> \<in> set (objects ?d)" and m2: "ex_sensor \<in> set (objects ?d)"
    by (simp_all add: ex_defs)
  from entry_iff_bootstrap_force_or_value [OF d r m1]
    entry_iff_bootstrap_force_or_value [OF d r m2] d r
  show ?thesis
    by (simp add: ex_defs getDataObject_def list_all_iff)
qed

text \<open>
  C1 as stated fails: with only the unit changed, a tracked field differs and yet no
  entry is emitted for the pump.
\<close>

theorem any_tracked_field_counterexample:
  "bootstrapped ex_adapter \<and>
   getDataObject (stateData ex_adapter) (obj_id ex_pump) = Some ex_pump \<and>
   spec_tracked_field_differs ex_pump (ex_pump\<lparr>obj_unit := ''l''\<rparr>) \<and>
   SetDataState (ex_pump\<lparr>obj_unit := ''l''\<rparr>)
     \<notin> set (fst (onData ex_adapter (ex_snapshot ex_sensor (ex_pump\<lparr>obj_unit := ''l''\<rparr>))))"
  by (simp add: onData_def ex_defs getDataObject_def processObject_def toArrayOfObjects_def
     sys_prop_def Let_def spec_tracked_field_differs_def objectStateFields_def obj_field_def)

text \<open>
  C2, at a cycle in which only the pump's label changed (Pump to Filter), bootstrapped and
  not forced: \<^verbatim>\<open>updateObjectCommonName\<close> is not called, the new snapshot becomes
  the baseline, and in the next cycle, where the value changes, the labels agree, so the
  call is not made then either. The store keeps the old name.
\<close>

theorem label_only_change_never_renamed:
  "bootstrapped ex_adapter \<and>
   obj_id ex_relabelled \<notin> set (forceUpdate ex_adapter) \<and>
   getDataObject (stateData ex_adapter) (obj_id ex_relabelled) = Some ex_pump \<and>
   label ex_pump = ''Pump'' \<and> label ex_relabelled = ''Filter'' \<and>
   obj_value ex_relabelled = obj_value ex_pump \<and>
   fst (onData ex_adapter (ex_snapshot ex_sensor ex_relabelled)) =
     [AdvancedSysInfoStates ex_sysInfo, SetConnection True] \<and>
   stateData (snd (snd (onData ex_adapter (ex_snapshot ex_sensor ex_relabelled)))) =
     ex_snapshot ex_sensor ex_relabelled \<and>
   fst (onData (snd (snd (onData ex_adapter (ex_snapshot ex_sensor ex_relabelled))))
          (ex_snapshot ex_sensor (ex_relabelled\<lparr>obj_value := 1\<rparr>))) =
     [AdvancedSysInfoStates ex_sysInfo, SetDataState (ex_relabelled\<lparr>obj_value := 1\<rparr>),
      SetConnection True]"
  by (simp add: run_defs ex_defs ex_relabelled_def dosageControl_def)

text \<open>
  C3 (as amended). In a bootstrapped cycle, take an object of the baseline whose id is not
  in the force-update array, whose channel id no other object of the new snapshot has, and
  whose category has no dot and is not \<^verbatim>\<open>info\<close>, and take a tracked field. If
  the object's \<^verbatim>\<open>value\<close> equals the baseline's, the cycle issues no write to the
  state of that field. If the \<^verbatim>\<open>value\<close> differs (the object being in the new
  snapshot, all of whose objects exist in the baseline, and having the field among its
  keys), the cycle writes the field's current content to that state, whether or not the
  field itself changed.
\<close>

theorem value_decides_field_writes:
  assumes "bootstrapped a"
    and "getDataObject (stateData a) (obj_id obj) = Some prev"
    and "obj_id obj \<notin> set (forceUpdate a)"
    and "\<forall>x \<in> set (objects data). x \<noteq> obj \<longrightarrow> channel_id a x \<noteq> channel_id a obj"
    and "CHR ''.'' \<notin> set (category obj)" and "category obj \<noteq> ''info''"
    and "field \<in> set objectStateFields"
  shows "(obj_value prev = obj_value obj \<longrightarrow>
            (\<forall>w \<in> set (cycle_writes a data). target w \<noteq> channel_id a obj @ ''.'' @ field)) \<and>
         (obj_value prev \<noteq> obj_value obj \<and> obj \<in> set (objects data) \<and>
          (\<forall>x \<in> set (objects data). getDataObject (stateData a) (obj_id x) \<noteq> None) \<and>
          field \<in> set (obj_keys obj) \<longrightarrow>
            SetState (channel_id a obj @ ''.'' @ field) (obj_field obj field)
              \<in> set (cycle_writes a data)) \<and>
         obj_field obj ''value'' = JNum (obj_value obj) \<and>
         obj_field obj ''category'' = JStr (category obj) \<and>
         obj_field obj ''label'' = JStr (label obj) \<and>
         obj_field obj ''unit'' = JStr (obj_unit obj) \<and>
         obj_field obj ''displayValue'' = JStr (displayValue obj) \<and>
         obj_field obj ''active'' = JBool (active obj)"
proof -
  have fid: "channel_id a obj @ ''.'' @ field = field_id a obj field"
    by (simp add: field_id_def)
  from value_decides_field_writes_aux [OF assms] show ?thesis
    unfolding fid by (simp add: obj_field_def)
qed

text \<open>
  A run where the sensor's value changed and only the pump's unit changed, and a run where
  the pump's value changed.
\<close>

theorem value_decides_field_writes_witness:
  "list_all (\<lambda>w. target w \<noteq> ''procon-ip.0.relays.1.unit'')
     (cycle_writes ex_adapter
        (ex_snapshot (ex_sensor\<lparr>obj_value := 25\<rparr>) (ex_pump\<lparr>obj_unit := ''l''\<rparr>))) \<and>
   cycle_writes ex_adapter
     (ex_snapshot (ex_sensor\<lparr>obj_value := 25\<rparr>) (ex_pump\<lparr>obj_unit := ''l''\<rparr>)) \<noteq> [] \<and>
   SetState ''procon-ip.0.relays.1.displayValue'' (JStr ''Auto (off)'')
     \<in> set (cycle_writes ex_adapter (ex_snapshot ex_sensor (ex_pump\<lparr>obj_value := 1\<rparr>)))"
proof -
  let ?p = "ex_pump\<lparr>obj_unit := ''l''\<rparr>"
  let ?d = "ex_snapshot (ex_sensor\<lparr>obj_value := 25\<rparr>) ?p"
  let ?q = "ex_pump\<lparr>obj_value := 1\<rparr>"
  let ?e = "ex_snapshot ex_sensor ?q"
  have h1: "bootstrapped ex_adapter"
    by (simp add: ex_defs)
  have h2: "getDataObject (stateData ex_adapter) (obj_id ?p) = Some ex_pump"
    "getDataObject (stateData ex_adapter) (obj_id ?q) = Some ex_pump"
    by (simp_all add: ex_defs getDataObject_def)
  have h3: "obj_id ?p \<notin> set (forceUpdate ex_adapter)" "obj_id ?q \<notin> set (forceUpdate ex_adapter)"
    by (simp_all add: ex_defs)
  have h4: "\<forall>x \<in> set (objects ?d). x \<noteq> ?p \<longrightarrow> channel_id ex_adapter x \<noteq> channel_id ex_adapter ?p"
    "\<forall>x \<in> set (objects ?e). x \<noteq> ?q \<longrightarrow> channel_id ex_adapter x \<noteq> channel_id ex_adapter ?q"
    by (simp_all add: ex_defs id_defs)
  have h5: "CHR ''.'' \<notin> set (category ?p)" "CHR ''.'' \<notin> set (category ?q)"
    and h6: "category ?p \<noteq> ''info''" "category ?q \<noteq> ''info''"
    by (simp_all add: ex_defs)
  have h7: "''unit'' \<in> set objectStateFields" "''displayValue'' \<in> set objectStateFields"
    by (simp_all add: objectStateFields_def)
  have same: "obj_value ex_pump = obj_value ?p"
    by simp
  have chg: "obj_value ex_pump \<noteq> obj_value ?q \<and> ?q \<in> set (objects ?e) \<and>
       (\<forall>x \<in> set (objects ?e). getDataObject (stateData ex_adapter) (obj_id x) \<noteq> None) \<and>
       ''displayValue'' \<in> set (obj_keys ?q)"
    by (simp add: ex_defs ex_keys_def getDataObject_def)
  have ne: "cycle_writes ex_adapter ?d \<noteq> []"
    by (simp add: write_defs run_defs ex_defs)
  have fid: "channel_id ex_adapter ?q @ ''.'' @ ''displayValue'' = ''procon-ip.0.relays.1.displayValue''"
    "channel_id ex_adapter ?p @ ''.'' @ ''unit'' = ''procon-ip.0.relays.1.unit''"
    and fv: "obj_field ?q ''displayValue'' = JStr ''Auto (off)''"
    by (simp_all add: id_defs ex_defs obj_field_def)
  from value_decides_field_writes [OF h1 h2(1) h3(1) h4(1) h5(1) h6(1) h7(1), THEN conjunct1] same
  have a: "\<forall>w \<in> set (cycle_writes ex_adapter ?d). target w \<noteq> channel_id ex_adapter ?p @ ''.'' @ ''unit''"
    by blast
  from value_decides_field_writes [OF h1 h2(2) h3(2) h4(2) h5(2) h6(2) h7(2),
      THEN conjunct2, THEN conjunct1] chg
  have b: "SetState (channel_id ex_adapter ?q @ ''.'' @ ''displayValue'') (obj_field ?q ''displayValue'')
      \<in> set (cycle_writes ex_adapter ?e)"
    by blast
  from a b ne show ?thesis
    unfolding list_all_iff fid fv by blast
qed

text \<open>
  C3 as stated fails: when the pump's value changes, its unchanged unit is written too.
\<close>

theorem unchanged_field_written_counterexample:
  "bootstrapped ex_adapter \<and>
   getDataObject (stateData ex_adapter) (obj_id (ex_pump\<lparr>obj_value := 1\<rparr>)) = Some ex_pump \<and>
   ex_pump\<lparr>obj_value := 1\<rparr> \<in> set (objects (ex_snapshot ex_sensor (ex_pump\<lparr>obj_value := 1\<rparr>))) \<and>
   obj_unit (ex_pump\<lparr>obj_value := 1\<rparr>) = obj_unit ex_pump \<and>
   obj_id (ex_pump\<lparr>obj_value := 1\<rparr>) \<notin> set (forceUpdate ex_adapter) \<and>
   SetState (field_id ex_adapter (ex_pump\<lparr>obj_value := 1\<rparr>) ''unit'') (JStr ''--'')
     \<in> set (cycle_writes ex_adapter (ex_snapshot ex_sensor (ex_pump\<lparr>obj_value := 1\<rparr>)))"
  by (simp add: write_defs run_defs ex_defs id_defs)

text \<open>
  C4, at the ids 0 and 16 both forced with nothing changed: both objects are updated,
  16 is taken out of the force-update array, and 0 stays in it.
\<close>

theorem force_id_zero_not_consumed:
  "fst (snd (onData (ex_adapter\<lparr>forceUpdate := [0, 16]\<rparr>) ex_data)) = None \<and>
   SetDataState ex_sensor \<in> set (fst (onData (ex_adapter\<lparr>forceUpdate := [0, 16]\<rparr>) ex_data)) \<and>
   SetDataState ex_pump \<in> set (fst (onData (ex_adapter\<lparr>forceUpdate := [0, 16]\<rparr>) ex_data)) \<and>
   forceUpdate (snd (snd (onData (ex_adapter\<lparr>forceUpdate := [0, 16]\<rparr>) ex_data))) = [0]"
  by (simp add: run_defs ex_defs)


section \<open>The claims about the command dispatcher\<close>

text \<open>
  C5, at an auto intent whose transport promise is rejected: the pump's id is pushed and
  the command is sent, but \<^verbatim>\<open>relayToggleAuto\<close> itself is rejected with the
  transport's error, which the \<^verbatim>\<open>catch\<close> of \<^verbatim>\<open>onStateChange\<close> then logs.
  \<^verbatim>\<open>relayToggleOnOff\<close> under the same transport is fulfilled.
\<close>

theorem auto_rejection_reaches_caller:
  "relayToggleAuto ex_store ex_failing_transport ex_adapter ''procon-ip.0.relays.1.auto''
       (ex_intent (JBool True)) =
     (Rejected (Error ''socket hang up''), push ex_adapter 16,
      [GetStateAsync ''procon-ip.0.relays.1.onOff'', GetObjectAsync ''procon-ip.0.relays.1.auto'',
       Transmit (SetAuto ex_pump)]) \<and>
   onStateChange ex_store ex_failing_transport ex_adapter ''procon-ip.0.relays.1.auto''
       (Some (ex_intent (JBool True))) =
     (push ex_adapter 16,
      [GetStateAsync ''procon-ip.0.relays.1.onOff'', GetObjectAsync ''procon-ip.0.relays.1.auto'',
       Transmit (SetAuto ex_pump), LogError ''Error on relay toggle'']) \<and>
   relayToggleOnOff ex_store ex_failing_transport ex_adapter ''procon-ip.0.relays.1.onOff''
       (ex_intent (JBool True)) =
     (Fulfilled JUndefined, push ex_adapter 16,
      [GetObjectAsync ''procon-ip.0.relays.1.onOff'', Transmit (SetOn ex_pump),
       LogError ''Error on switching operation''])"
  by (simp add: relayToggleAuto_def relayToggleOnOff_def onStateChange_def caught_def
      try_return_def try_await_def ex_failing_transport_def ex_intent_def store_defs ex_defs)

text \<open>
  C6 (as amended). For an auto intent on \<^verbatim>\<open><relay>.auto\<close> such that the store has
  the state \<^verbatim>\<open><relay>.onOff\<close> and the object \<^verbatim>\<open><relay>.auto\<close>, and the
  object's native id is the id of a data object of the baseline: exactly one command is
  transmitted, whatever the transport answers. It is "set auto" when the intended value
  is true, whatever onOff reads; otherwise "set on" when that onOff state reads true, and
  "set off" when it does not.
\<close>

theorem auto_intent_command_resolved:
  assumes "getState s (base @ ''.onOff'') = Some onOffState"
    and "getObject s (base @ ''.auto'') = Some obj"
    and "native obj = Some n"
    and "getDataObject (stateData a) (obj_id n) = Some d"
  shows "(truthy (val state) \<longrightarrow>
            transmitted (snd (snd (relayToggleAuto s tr a (base @ ''.auto'') state))) = [SetAuto d]) \<and>
         (\<not> truthy (val state) \<and> truthy (val onOffState) \<longrightarrow>
            transmitted (snd (snd (relayToggleAuto s tr a (base @ ''.auto'') state))) = [SetOn d]) \<and>
         (\<not> truthy (val state) \<and> \<not> truthy (val onOffState) \<longrightarrow>
            transmitted (snd (snd (relayToggleAuto s tr a (base @ ''.auto'') state))) = [SetOff d]) \<and>
         truthy (JBool True) \<and> \<not> truthy (JBool False)"
  using assms
  by (simp add: relayToggleAuto_def replace_auto_suffix resolve_def Let_def split_def
      transmitted_append transmitted_try_return)

text \<open>
  The auto intents true and false on the pump while its onOff state reads true, and the
  intent false while it reads false.
\<close>

theorem auto_intent_command_resolved_witness:
  "getState ex_store (''procon-ip.0.relays.1'' @ ''.onOff'') = Some \<lparr>val = JBool True, ack = True\<rparr> \<and>
   getObject ex_store (''procon-ip.0.relays.1'' @ ''.auto'') =
     Some \<lparr>otype = State, common = commonAuto ex_pump, native = Some ex_pump\<rparr> \<and>
   getDataObject (stateData ex_adapter) (obj_id ex_pump) = Some ex_pump \<and>
   transmitted (snd (snd (relayToggleAuto ex_store ex_transport ex_adapter
      ''procon-ip.0.relays.1.auto'' (ex_intent (JBool True))))) = [SetAuto ex_pump] \<and>
   transmitted (snd (snd (relayToggleAuto ex_store ex_transport ex_adapter
      ''procon-ip.0.relays.1.auto'' (ex_intent (JBool False))))) = [SetOn ex_pump] \<and>
   transmitted (snd (snd (relayToggleAuto
      (ex_store\<lparr>io_states := [(''procon-ip.0.relays.1.onOff'', \<lparr>val = JBool False, ack = True\<rparr>)]\<rparr>)
      ex_failing_transport ex_adapter
      ''procon-ip.0.relays.1.auto'' (ex_intent (JBool False))))) = [SetOff ex_pump]"
proof -
  let ?off = "ex_store\<lparr>io_states := [(''procon-ip.0.relays.1.onOff'', \<lparr>val = JBool False, ack = True\<rparr>)]\<rparr>"
  have h1: "getState ex_store (''procon-ip.0.relays.1'' @ ''.onOff'') = Some \<lparr>val = JBool True, ack = True\<rparr>"
    and h1': "getState ?off (''procon-ip.0.relays.1'' @ ''.onOff'') = Some \<lparr>val = JBool False, ack = True\<rparr>"
    by (simp_all add: getState_def ex_store_def)
  have h2: "getObject ex_store (''procon-ip.0.relays.1'' @ ''.auto'') =
     Some \<lparr>otype = State, common = commonAuto ex_pump, native = Some ex_pump\<rparr>"
    and h2': "getObject ?off (''procon-ip.0.relays.1'' @ ''.auto'') =
     Some \<lparr>otype = State, common = commonAuto ex_pump, native = Some ex_pump\<rparr>"
    by (simp_all add: getObject_def ex_store_def)
  have h3: "native \<lparr>otype = State, common = commonAuto ex_pump, native = Some ex_pump\<rparr> = Some ex_pump"
    by simp
  have h4: "getDataObject (stateData ex_adapter) (obj_id ex_pump) = Some ex_pump"
    by (simp add: getDataObject_def ex_defs)
  from auto_intent_command_resolved [OF h1 h2 h3 h4, of "ex_intent (JBool True)" ex_transport]
    auto_intent_command_resolved [OF h1 h2 h3 h4, of "ex_intent (JBool False)" ex_transport]
    auto_intent_command_resolved [OF h1' h2' h3 h4, of "ex_intent (JBool False)" ex_failing_transport]
    h1 h2 h4
  show ?thesis by (simp add: ex_intent_def)
qed

text \<open>
  C6 as stated fails: an auto intent true on the pump, whose object resolves but whose
  onOff state is missing, transmits no command.
\<close>

theorem auto_true_without_onOff_counterexample:
  "getObject (ex_store\<lparr>io_states := []\<rparr>) ''procon-ip.0.relays.1.auto'' =
     Some \<lparr>otype = State, common = commonAuto ex_pump, native = Some ex_pump\<rparr> \<and>
   getDataObject (stateData ex_adapter) (obj_id ex_pump) = Some ex_pump \<and>
   val (ex_intent (JBool True)) = JBool True \<and>
   transmitted (snd (snd (relayToggleAuto (ex_store\<lparr>io_states := []\<rparr>) ex_transport ex_adapter
      ''procon-ip.0.relays.1.auto'' (ex_intent (JBool True))))) = []"
  by (simp add: relayToggleAuto_def ex_intent_def store_defs ex_defs)

text \<open>
  C7. For a dosage-timer intent whose target resolves, the channel is
  \<^verbatim>\<open>categoryId + 8\<close> in the external bank and \<^verbatim>\<open>categoryId\<close> otherwise; the
  one command transmitted is the chlorine, pH-minus or pH-plus dosage command whose
  configured id the channel equals (the first in this order), none is transmitted when the
  channel equals none of the three, and the handler is fulfilled in every case.
\<close>

theorem dosage_timer_routing:
  assumes "getObject s objectId = Some obj" and "resolve a obj = Some d"
  shows "transmitted (snd (snd (setDosageTimer s tr a objectId state))) =
           (if spec_dosage_channel d = chlorineDosageControlId (stateData a)
              then [SetChlorineDosage (val state)]
            else if spec_dosage_channel d = phMinusDosageControlId (stateData a)
              then [SetPhMinusDosage (val state)]
            else if spec_dosage_channel d = phPlusDosageControlId (stateData a)
              then [SetPhPlusDosage (val state)]
            else []) \<and>
         fst (setDosageTimer s tr a objectId state) = Fulfilled JUndefined"
  using assms
  by (simp add: setDosageTimer_def spec_dosage_channel_def Let_def split_def transmitted_append
      transmitted_try_await try_await_fulfilled)

text \<open>
  Relay 2 is the chlorine relay and the transport fails; relay 1 is no dosage relay.
\<close>

theorem dosage_timer_routing_witness:
  "getObject ex_dosage_store ''procon-ip.0.relays.2.dosageTimer'' =
     Some \<lparr>otype = State, common = commonTimer ex_dosage_pump, native = Some ex_dosage_pump\<rparr> \<and>
   resolve ex_dosage_adapter
     \<lparr>otype = State, common = commonTimer ex_dosage_pump, native = Some ex_dosage_pump\<rparr> =
     Some ex_dosage_pump \<and>
   transmitted (snd (snd (setDosageTimer ex_dosage_store ex_failing_transport ex_dosage_adapter
      ''procon-ip.0.relays.2.dosageTimer'' (ex_intent (JNum 30))))) = [SetChlorineDosage (JNum 30)] \<and>
   fst (setDosageTimer ex_dosage_store ex_failing_transport ex_dosage_adapter
      ''procon-ip.0.relays.2.dosageTimer'' (ex_intent (JNum 30))) = Fulfilled JUndefined \<and>
   getObject ex_dosage_store ''procon-ip.0.relays.1.dosageTimer'' =
     Some \<lparr>otype = State, common = commonTimer ex_pump, native = Some ex_pump\<rparr> \<and>
   resolve ex_dosage_adapter \<lparr>otype = State, common = commonTimer ex_pump, native = Some ex_pump\<rparr> =
     Some ex_pump \<and>
   transmitted (snd (snd (setDosageTimer ex_dosage_store ex_transport ex_dosage_adapter
      ''procon-ip.0.relays.1.dosageTimer'' (ex_intent (JNum 30))))) = [] \<and>
   fst (setDosageTimer ex_dosage_store ex_transport ex_dosage_adapter
      ''procon-ip.0.relays.1.dosageTimer'' (ex_intent (JNum 30))) = Fulfilled JUndefined"
proof -
  have g1: "getObject ex_dosage_store ''procon-ip.0.relays.2.dosageTimer'' =
     Some \<lparr>otype = State, common = commonTimer ex_dosage_pump, native = Some ex_dosage_pump\<rparr>"
    by (simp add: getObject_def ex_dosage_store_def)
  have r1: "resolve ex_dosage_adapter
     \<lparr>otype = State, common = commonTimer ex_dosage_pump, native = Some ex_dosage_pump\<rparr> =
     Some ex_dosage_pump"
    by (simp add: resolve_def getDataObject_def ex_dosage_adapter_def ex_dosage_pump_def ex_defs)
  have g2: "getObject ex_dosage_store ''procon-ip.0.relays.1.dosageTimer'' =
     Some \<lparr>otype = State, common = commonTimer ex_pump, native = Some ex_pump\<rparr>"
    by (simp add: getObject_def ex_dosage_store_def)
  have r2: "resolve ex_dosage_adapter \<lparr>otype = State, common = commonTimer ex_pump, native = Some ex_pump\<rparr> =
     Some ex_pump"
    by (simp add: resolve_def getDataObject_def ex_dosage_adapter_def ex_dosage_pump_def ex_defs)
  have c1: "spec_dosage_channel ex_dosage_pump = 2" and c2: "spec_dosage_channel ex_pump = 1"
    by (simp_all add: spec_dosage_channel_def ex_dosage_pump_def ex_defs)
  have ids: "chlorineDosageControlId (stateData ex_dosage_adapter) = 2"
    "phMinusDosageControlId (stateData ex_dosage_adapter) = 3"
    "phPlusDosageControlId (stateData ex_dosage_adapter) = 4"
    by (simp_all add: ex_dosage_adapter_def ex_defs)
  from dosage_timer_routing [OF g1 r1, of ex_failing_transport "ex_intent (JNum 30)"]
    dosage_timer_routing [OF g2 r2, of ex_transport "ex_intent (JNum 30)"] g1 r1 g2 r2
  show ?thesis by (simp add: c1 c2 ids ex_intent_def)
qed

text \<open>
  C10. The first thing an auto intent does is read the companion onOff state; when there
  is none, the handler is rejected with an error, the adapter (and so the force-update
  array) is unchanged, and nothing follows the read: no object lookup and no command,
  whatever the intended value.
\<close>

theorem auto_intent_reads_onOff_first:
  "(\<exists>rest. snd (snd (relayToggleAuto s tr a objectId state)) =
       GetStateAsync (replace_auto objectId) # rest) \<and>
   (getState s (replace_auto objectId) = None \<longrightarrow>
      relayToggleAuto s tr a objectId state =
        (Rejected (Error (''Cannot get onOff state to toggle '' @ quoted objectId)), a,
         [GetStateAsync (replace_auto objectId)]))"
  by (simp add: relayToggleAuto_def Let_def split_def split: option.splits)

text \<open>The auto intent true on the pump, with its object in the store but no states.\<close>

theorem auto_intent_reads_onOff_first_witness:
  "getState (ex_store\<lparr>io_states := []\<rparr>) (replace_auto ''procon-ip.0.relays.1.auto'') = None \<and>
   getObject (ex_store\<lparr>io_states := []\<rparr>) ''procon-ip.0.relays.1.auto'' =
     Some \<lparr>otype = State, common = commonAuto ex_pump, native = Some ex_pump\<rparr> \<and>
   relayToggleAuto (ex_store\<lparr>io_states := []\<rparr>) ex_transport ex_adapter
       ''procon-ip.0.relays.1.auto'' (ex_intent (JBool True)) =
     (Rejected (Error (''Cannot get onOff state to toggle '' @ quoted ''procon-ip.0.relays.1.auto'')),
      ex_adapter, [GetStateAsync ''procon-ip.0.relays.1.onOff''])"
proof -
  have h: "getState (ex_store\<lparr>io_states := []\<rparr>) (replace_auto ''procon-ip.0.relays.1.auto'') = None"
    by (simp add: getState_def)
  have r: "replace_auto ''procon-ip.0.relays.1.auto'' = ''procon-ip.0.relays.1.onOff''"
    by (simp add: replace_auto_def endsWith_def)
  from auto_intent_reads_onOff_first [of "ex_store\<lparr>io_states := []\<rparr>" ex_transport ex_adapter
      "''procon-ip.0.relays.1.auto''" "ex_intent (JBool True)"] h
  show ?thesis by (simp add: r getObject_def ex_store_def)
qed

section \<open>The claim about the materializer\<close>



end
